theory Spec2Isabelle
  imports Main "HOL-Library.AList" "HOL-Library.Sublist"
begin

unbundle bit_operations_syntax

section \<open>The resilient kubeconfig manager (kubeconfig_manager.py)\<close>

text \<open>
  The manager keeps two credential files (the GKE management cluster's and the hosted
  cluster's kubeconfig) and wraps their acquisition in a fast path, a backup, three
  attempts and a recovery from backups. Everything it does is an effect on the file
  system, on external commands or on the clock, so the embedding threads a \<open>world\<close>
  through every method and takes what the program cannot decide by itself from an
  \<open>env\<close>: the outcome of each external command, the I/O operations that fail, and the
  library functions (YAML parser, base64 decoder, SHA-256).

  What the embedding takes for granted:
  \<^item> the runner is \<open>CommandRunner\<close> of common.py, whose \<open>run\<close> catches every exception;
  \<^item> \<open>gcloud ... get-credentials\<close> may rewrite the file named by \<open>KUBECONFIG\<close> and nothing
    else; the two \<open>kubectl\<close> commands change no file;
  \<^item> paths are plain strings in normal form, compared as strings, and the target's name
    has no glob metacharacter;
  \<^item> \<open>Path.exists\<close> answers without raising;
  \<^item> logging, sleeping and reading the clock do not raise.
\<close>

subsection \<open>Data\<close>

type_synonym path = string

record inode =
  content :: string
  mode :: nat
  mtime :: int

text \<open>What \<open>yaml.safe_load\<close> returns: a mapping, a sequence or anything else.\<close>

datatype yaml = YScalar string | YList "yaml list" | YDict "(string \<times> yaml) list"

datatype exn = OSError | DecodeError | YAMLError | ValueError

text \<open>
  The three command lines the manager passes to \<open>runner.run\<close>:
  \<open>gcloud container clusters get-credentials ...\<close>,
  \<open>kubectl get secret admin-kubeconfig ...\<close> and \<open>kubectl cluster-info ...\<close>.
\<close>

datatype command = Get_credentials | Get_secret | Cluster_info

text \<open>How \<open>subprocess.run\<close> ends: with a return code, stdout and stderr, or by raising.\<close>

datatype proc = Exited int string string | TimeoutExpired | SubprocessError string

record completed =
  outcome :: proc
  kubeconfig_written :: "inode option"
  elapsed :: nat

text \<open>The effects of a run that the properties below speak about, in the order they happen.\<close>

datatype event =
    Attempt nat
  | Slept nat
  | Ran command path
  | Recovery_started path
  | Warn_permissive path

record kubeconfig_info =
  info_path :: path
  cluster_name :: string
  cluster_type :: string
  created_at :: int
  checksum :: string

text \<open>
  The environment of a run: the configuration (\<open>InstallConfig\<close>), the runner's own
  \<open>dry_run\<close> flag, and the oracles. \<open>subprocess_run n cmd kc\<close> is how the \<open>n\<close>-th external
  command of the run ends when it is \<open>cmd\<close> with \<open>KUBECONFIG = kc\<close>; \<open>faults n\<close> says
  whether the \<open>n\<close>-th file-system operation of the run raises.
\<close>

record env =
  kubeconfig_gke_path :: path
  kubeconfig_hosted_path :: path
  gke_cluster_name :: string
  hosted_cluster_name :: string
  config_dry_run :: bool
  runner_dry_run :: bool
  subprocess_run :: "nat \<Rightarrow> command \<Rightarrow> path \<Rightarrow> completed"
  faults :: "nat \<Rightarrow> bool"
  yaml_safe_load :: "string \<Rightarrow> yaml option"
  b64decode_utf8 :: "string \<Rightarrow> string option"
  sha256_hexdigest :: "string \<Rightarrow> string"
  new_file_mode :: nat

record world =
  files :: "(path \<times> inode) list"
  dirs :: "(path \<times> nat) list"
  clock :: int
  ticks :: nat
  calls :: nat
  trace :: "event list"
  info :: "(path \<times> kubeconfig_info) list"

definition max_retries :: nat where
  "max_retries = 3"

definition retry_delay :: nat where
  "retry_delay = 5"

subsection \<open>File system, clock and log\<close>

text \<open>
  Each operation that can raise consumes one index of \<open>faults\<close>. An operation on a path
  that is not there raises as well. Nothing else is assumed about when I/O fails.
  Permission bits are taken as given to \<open>chmod\<close> and \<open>mkdir\<close> (no umask).
\<close>

definition lookup :: "world \<Rightarrow> path \<Rightarrow> inode option" where
  "lookup w p = map_of (files w) p"

definition path_exists :: "world \<Rightarrow> path \<Rightarrow> bool" where
  "path_exists w p = (lookup w p \<noteq> None \<or> map_of (dirs w) p \<noteq> None)"

definition fault :: "env \<Rightarrow> world \<Rightarrow> bool" where
  "fault e w = faults e (ticks w)"

definition tick :: "world \<Rightarrow> world" where
  "tick w = w\<lparr>ticks := Suc (ticks w)\<rparr>"

definition os_stat :: "env \<Rightarrow> path \<Rightarrow> world \<Rightarrow> (exn + inode) \<times> world" where
  "os_stat e p w =
     (case lookup w p of
        None \<Rightarrow> (Inl OSError, tick w)
      | Some f \<Rightarrow> if fault e w then (Inl OSError, tick w) else (Inr f, tick w))"

definition os_chmod :: "env \<Rightarrow> path \<Rightarrow> nat \<Rightarrow> world \<Rightarrow> (exn + unit) \<times> world" where
  "os_chmod e p m w =
     (case lookup w p of
        None \<Rightarrow> (Inl OSError, tick w)
      | Some f \<Rightarrow>
          if fault e w then (Inl OSError, tick w)
          else (Inr (), tick (w\<lparr>files := AList.update p (f\<lparr>mode := m\<rparr>) (files w)\<rparr>)))"

definition os_rename :: "env \<Rightarrow> path \<Rightarrow> path \<Rightarrow> world \<Rightarrow> (exn + unit) \<times> world" where
  "os_rename e src dst w =
     (case lookup w src of
        None \<Rightarrow> (Inl OSError, tick w)
      | Some f \<Rightarrow>
          if fault e w then (Inl OSError, tick w)
          else (Inr (),
                tick (w\<lparr>files := AList.update dst f (AList.delete src (files w))\<rparr>)))"

definition os_unlink :: "env \<Rightarrow> path \<Rightarrow> world \<Rightarrow> (exn + unit) \<times> world" where
  "os_unlink e p w =
     (case lookup w p of
        None \<Rightarrow> (Inl OSError, tick w)
      | Some f \<Rightarrow>
          if fault e w then (Inl OSError, tick w)
          else (Inr (), tick (w\<lparr>files := AList.delete p (files w)\<rparr>)))"

text \<open>\<open>open(p, 'r')\<close> and the read that follows it.\<close>

definition open_r :: "env \<Rightarrow> path \<Rightarrow> world \<Rightarrow> (exn + unit) \<times> world" where
  "open_r e p w =
     (case lookup w p of
        None \<Rightarrow> (Inl OSError, tick w)
      | Some f \<Rightarrow> if fault e w then (Inl OSError, tick w) else (Inr (), tick w))"

definition f_read :: "env \<Rightarrow> path \<Rightarrow> world \<Rightarrow> (exn + string) \<times> world" where
  "f_read e p w =
     (case lookup w p of
        None \<Rightarrow> (Inl OSError, tick w)
      | Some f \<Rightarrow> if fault e w then (Inl OSError, tick w) else (Inr (content f), tick w))"

text \<open>
  \<open>open(p, 'w')\<close> creates the file or truncates it (an existing file keeps its mode);
  the write that follows stores the data.
\<close>

definition open_w :: "env \<Rightarrow> path \<Rightarrow> world \<Rightarrow> (exn + unit) \<times> world" where
  "open_w e p w =
     (if fault e w then (Inl OSError, tick w)
      else
        (let m = (case lookup w p of None \<Rightarrow> new_file_mode e | Some f \<Rightarrow> mode f)
         in (Inr (),
             tick (w\<lparr>files :=
                       AList.update p \<lparr>content = [], mode = m, mtime = clock w\<rparr> (files w)\<rparr>))))"

definition f_write :: "env \<Rightarrow> path \<Rightarrow> string \<Rightarrow> world \<Rightarrow> (exn + unit) \<times> world" where
  "f_write e p s w =
     (case lookup w p of
        None \<Rightarrow> (Inl OSError, tick w)
      | Some f \<Rightarrow>
          if fault e w then (Inl OSError, tick w)
          else (Inr (),
                tick (w\<lparr>files :=
                          AList.update p (f\<lparr>content := s, mtime := clock w\<rparr>) (files w)\<rparr>)))"

text \<open>\<open>Path(p).parent\<close> for a path without trailing slash.\<close>

definition parent :: "path \<Rightarrow> path" where
  "parent p =
     (let d = rev (dropWhile (\<lambda>c. c \<noteq> CHR ''/'') (rev p))
      in if d = [] then ''.'' else if d = ''/'' then ''/'' else butlast d)"

text \<open>\<open>d.mkdir(parents=True, exist_ok=True, mode=m)\<close>.\<close>

definition mkdir :: "env \<Rightarrow> path \<Rightarrow> nat \<Rightarrow> world \<Rightarrow> (exn + unit) \<times> world" where
  "mkdir e d m w =
     (if fault e w \<or> lookup w d \<noteq> None then (Inl OSError, tick w)
      else if map_of (dirs w) d \<noteq> None then (Inr (), tick w)
      else (Inr (), tick (w\<lparr>dirs := dirs w @ [(d, m)]\<rparr>)))"

definition time_sleep :: "nat \<Rightarrow> world \<Rightarrow> world" where
  "time_sleep d w = w\<lparr>clock := clock w + int d, trace := trace w @ [Slept d]\<rparr>"

definition log :: "event \<Rightarrow> world \<Rightarrow> world" where
  "log ev w = w\<lparr>trace := trace w @ [ev]\<rparr>"

subsection \<open>CommandRunner.run (common.py)\<close>

definition is_space :: "char \<Rightarrow> bool" where
  "is_space c = (c \<in> set [CHR '' '', CHR 0x09, CHR 0x0A, CHR 0x0B, CHR 0x0C, CHR 0x0D,
                           CHR 0x1C, CHR 0x1D, CHR 0x1E, CHR 0x1F])"

definition strip :: "string \<Rightarrow> string" where
  "strip s = rev (dropWhile is_space (rev (dropWhile is_space s)))"

text \<open>
  What the external command leaves behind: \<open>gcloud ... get-credentials\<close> may rewrite the
  file named by \<open>KUBECONFIG\<close>; the two \<open>kubectl\<close> commands only read.
\<close>

definition subprocess_effect :: "command \<Rightarrow> path \<Rightarrow> completed \<Rightarrow> world \<Rightarrow> world" where
  "subprocess_effect cmd kc r w =
     (let w1 = w\<lparr>clock := clock w + int (elapsed r), calls := Suc (calls w),
                 trace := trace w @ [Ran cmd kc]\<rparr>
      in case cmd of
           Get_credentials \<Rightarrow>
             (case kubeconfig_written r of
                None \<Rightarrow> w1
              | Some f \<Rightarrow> w1\<lparr>files := AList.update kc f (files w1)\<rparr>)
         | _ \<Rightarrow> w1)"

definition run :: "env \<Rightarrow> command \<Rightarrow> path \<Rightarrow> bool \<Rightarrow> world \<Rightarrow> (bool \<times> string) \<times> world" where
  "run e cmd kc check_output w =
     (if runner_dry_run e then ((True, ''dry-run-output''), w)
      else
        (let r = subprocess_run e (calls w) cmd kc;
             w1 = subprocess_effect cmd kc r w
         in case outcome r of
              Exited returncode out err \<Rightarrow>
                if returncode = 0
                then (if check_output then ((True, strip out), w1) else ((True, []), w1))
                else ((False, err), w1)
            | TimeoutExpired \<Rightarrow> ((False, ''Command timed out''), w1)
            | SubprocessError msg \<Rightarrow> ((False, msg), w1)))"

subsection \<open>Validation\<close>

text \<open>The \<open>with open(path, 'r') as f: config_data = yaml.safe_load(f)\<close> statement.\<close>

definition load_document :: "env \<Rightarrow> path \<Rightarrow> world \<Rightarrow> (exn + yaml) \<times> world" where
  "load_document e p w =
     (case open_r e p w of
        (Inl x, w1) \<Rightarrow> (Inl x, w1)
      | (Inr _, w1) \<Rightarrow>
          (case f_read e p w1 of
             (Inl x, w2) \<Rightarrow> (Inl x, w2)
           | (Inr s, w2) \<Rightarrow>
               (case yaml_safe_load e s of
                  None \<Rightarrow> (Inl YAMLError, w2)
                | Some y \<Rightarrow> (Inr y, w2))))"

definition required_keys :: "string list" where
  "required_keys = [''clusters'', ''contexts'', ''users'']"

text \<open>\<open>isinstance(config_data[key], list) and len(config_data[key]) > 0\<close>.\<close>

definition nonempty_section :: "(string \<times> yaml) list \<Rightarrow> string \<Rightarrow> bool" where
  "nonempty_section kv key =
     (case map_of kv key of
        Some (YList xs) \<Rightarrow> 0 < length xs
      | _ \<Rightarrow> False)"

text \<open>
  \<open>_validate_kubeconfig_file\<close>. The body runs inside \<open>try\<close>; the handler turns every
  exception into the result \<open>False\<close>.
\<close>

definition validate_body :: "env \<Rightarrow> path \<Rightarrow> world \<Rightarrow> (exn + bool) \<times> world" where
  "validate_body e p w =
     (case load_document e p w of
        (Inl x, w1) \<Rightarrow> (Inl x, w1)
      | (Inr config_data, w1) \<Rightarrow>
          (case config_data of
             YDict kv \<Rightarrow>
               if list_ex (\<lambda>key. map_of kv key = None) required_keys then (Inr False, w1)
               else if \<not> list_all (nonempty_section kv) required_keys then (Inr False, w1)
               else (Inr True, w1)
           | _ \<Rightarrow> (Inr False, w1)))"

definition validate_kubeconfig_file :: "env \<Rightarrow> path \<Rightarrow> world \<Rightarrow> bool \<times> world" where
  "validate_kubeconfig_file e p w =
     (case validate_body e p w of
        (Inl _, w1) \<Rightarrow> (False, w1)
      | (Inr b, w1) \<Rightarrow> (b, w1))"

text \<open>\<open>_test_kubeconfig_connectivity\<close>.\<close>

definition test_kubeconfig_connectivity :: "env \<Rightarrow> path \<Rightarrow> world \<Rightarrow> bool \<times> world" where
  "test_kubeconfig_connectivity e p w =
     (case run e Cluster_info p False w of
        ((success, _), w1) \<Rightarrow> if \<not> success then (False, w1) else (True, w1))"

text \<open>
  The permission check of \<open>_is_kubeconfig_valid\<close>: a warning at most. The mask
  \<open>0o077\<close> is 63.
\<close>

definition check_permissions :: "env \<Rightarrow> path \<Rightarrow> world \<Rightarrow> world" where
  "check_permissions e p w =
     (case os_stat e p w of
        (Inl _, w1) \<Rightarrow> w1
      | (Inr stat_info, w1) \<Rightarrow>
          if mode stat_info AND 63 \<noteq> 0 then log (Warn_permissive p) w1 else w1)"

definition is_kubeconfig_valid :: "env \<Rightarrow> path \<Rightarrow> world \<Rightarrow> bool \<times> world" where
  "is_kubeconfig_valid e p w =
     (if \<not> path_exists w p then (False, w)
      else
        (let w1 = check_permissions e p w
         in case validate_kubeconfig_file e p w1 of
              (False, w2) \<Rightarrow> (False, w2)
            | (True, w2) \<Rightarrow> test_kubeconfig_connectivity e p w2))"

subsection \<open>Directory, permissions, backup, checksum\<close>

text \<open>\<open>_ensure_directory_exists\<close>; the mode \<open>0o700\<close> is 448.\<close>

definition ensure_directory_exists :: "env \<Rightarrow> path \<Rightarrow> world \<Rightarrow> bool \<times> world" where
  "ensure_directory_exists e file_path w =
     (case mkdir e (parent file_path) 448 w of
        (Inl _, w1) \<Rightarrow> (False, w1)
      | (Inr _, w1) \<Rightarrow> (True, w1))"

text \<open>\<open>_set_secure_permissions\<close>; the mode \<open>0o600\<close> is 384.\<close>

definition set_secure_permissions :: "env \<Rightarrow> path \<Rightarrow> world \<Rightarrow> bool \<times> world" where
  "set_secure_permissions e p w =
     (case os_chmod e p 384 w of
        (Inl _, w1) \<Rightarrow> (False, w1)
      | (Inr _, w1) \<Rightarrow> (True, w1))"

text \<open>\<open>str\<close> of an integer, for the timestamp in a backup's name.\<close>

fun digits :: "nat \<Rightarrow> string" where
  "digits n =
     (if n < 10 then [''0123456789'' ! n]
      else digits (n div 10) @ [''0123456789'' ! (n mod 10)])"

declare digits.simps [simp del]

definition str_int :: "int \<Rightarrow> string" where
  "str_int i = (if i < 0 then CHR ''-'' # digits (nat (- i)) else digits (nat i))"

definition backup_path_of :: "path \<Rightarrow> int \<Rightarrow> path" where
  "backup_path_of p timestamp = p @ ''.backup.'' @ str_int timestamp"

text \<open>
  \<open>_create_backup\<close>: both files are opened, the bytes copied, then the mode. The handler
  turns an exception at any of these steps into the result \<open>None\<close>.
\<close>

definition create_backup_body :: "env \<Rightarrow> path \<Rightarrow> world \<Rightarrow> (exn + path) \<times> world" where
  "create_backup_body e p w =
     (let backup_path = backup_path_of p (clock w)
      in case open_r e p w of
           (Inl x, w1) \<Rightarrow> (Inl x, w1)
         | (Inr _, w1) \<Rightarrow>
         (case open_w e backup_path w1 of
           (Inl x, w2) \<Rightarrow> (Inl x, w2)
         | (Inr _, w2) \<Rightarrow>
         (case f_read e p w2 of
           (Inl x, w3) \<Rightarrow> (Inl x, w3)
         | (Inr data, w3) \<Rightarrow>
         (case f_write e backup_path data w3 of
           (Inl x, w4) \<Rightarrow> (Inl x, w4)
         | (Inr _, w4) \<Rightarrow>
         (case os_stat e p w4 of
           (Inl x, w5) \<Rightarrow> (Inl x, w5)
         | (Inr original_stat, w5) \<Rightarrow>
         (case os_chmod e backup_path (mode original_stat) w5 of
           (Inl x, w6) \<Rightarrow> (Inl x, w6)
         | (Inr _, w6) \<Rightarrow> (Inr backup_path, w6)))))))"

definition create_backup :: "env \<Rightarrow> path \<Rightarrow> world \<Rightarrow> path option \<times> world" where
  "create_backup e p w =
     (case create_backup_body e p w of
        (Inl _, w1) \<Rightarrow> (None, w1)
      | (Inr backup_path, w1) \<Rightarrow> (Some backup_path, w1))"

text \<open>\<open>_calculate_file_checksum\<close>: the empty string when the file cannot be read.\<close>

definition calculate_file_checksum :: "env \<Rightarrow> path \<Rightarrow> world \<Rightarrow> string \<times> world" where
  "calculate_file_checksum e p w =
     (case open_r e p w of
        (Inl _, w1) \<Rightarrow> ([], w1)
      | (Inr _, w1) \<Rightarrow>
          (case f_read e p w1 of
             (Inl _, w2) \<Rightarrow> ([], w2)
           | (Inr data, w2) \<Rightarrow> (sha256_hexdigest e data, w2)))"

definition store_info :: "path \<Rightarrow> string \<Rightarrow> string \<Rightarrow> string \<Rightarrow> world \<Rightarrow> world" where
  "store_info p name ctype digest w =
     w\<lparr>info := AList.update p
         \<lparr>info_path = p, cluster_name = name, cluster_type = ctype,
          created_at = clock w, checksum = digest\<rparr> (info w)\<rparr>"

subsection \<open>Recovery\<close>

text \<open>
  \<open>Path(path).parent.glob(f"{Path(path).name}.backup.*")\<close>, for a path whose name has no
  glob metacharacter: the files of the same directory whose name continues the target's
  with \<open>.backup.\<close> and anything without a separator. The order of \<open>files\<close> stands for the
  order in which the directory is listed.
\<close>

definition is_backup_name :: "path \<Rightarrow> path \<Rightarrow> bool" where
  "is_backup_name p q =
     (prefix (p @ ''.backup.'') q \<and> CHR ''/'' \<notin> set (drop (length p + 8) q))"

definition glob_backups :: "world \<Rightarrow> path \<Rightarrow> path list" where
  "glob_backups w p = filter (is_backup_name p) (map fst (files w))"

text \<open>
  The listing is an operation of the file system like the others: it consumes a fault
  index and can raise. Python's \<open>list\<close> around the generator runs the whole listing at
  once.
\<close>

definition list_backups :: "env \<Rightarrow> path \<Rightarrow> world \<Rightarrow> (exn + path list) \<times> world" where
  "list_backups e p w =
     (if fault e w then (Inl OSError, tick w) else (Inr (glob_backups w p), tick w))"

text \<open>
  \<open>backup_files.sort(key=lambda x: x.stat().st_mtime, reverse=True)\<close>. The sort first
  calls the key function on every element, in the order of the list; each call is an
  \<open>os.stat\<close> that can raise (a listed entry may be a link to nothing), and then the sort
  raises. With all keys at hand the sort is stable, also under \<open>reverse\<close>.
\<close>

fun stat_keys :: "env \<Rightarrow> path list \<Rightarrow> world \<Rightarrow> (exn + int list) \<times> world" where
  "stat_keys e [] w = (Inr [], w)"
| "stat_keys e (x # xs) w =
     (case os_stat e x w of
        (Inl err, w1) \<Rightarrow> (Inl err, w1)
      | (Inr stat_info, w1) \<Rightarrow>
          (case stat_keys e xs w1 of
             (Inl err, w2) \<Rightarrow> (Inl err, w2)
           | (Inr keys, w2) \<Rightarrow> (Inr (mtime stat_info # keys), w2)))"

definition sort_newest_first :: "path list \<Rightarrow> int list \<Rightarrow> path list" where
  "sort_newest_first xs keys = map fst (sort_key (\<lambda>(x, k). - k) (zip xs keys))"

text \<open>
  The body of the loop over the candidates of \<open>_attempt_recovery\<close>, for one candidate: it
  is restored when it is valid and the rename onto the target does not raise.
\<close>

definition try_restore :: "env \<Rightarrow> path \<Rightarrow> path \<Rightarrow> world \<Rightarrow> bool \<times> world" where
  "try_restore e p backup_file w =
     (case is_kubeconfig_valid e backup_file w of
        (False, w1) \<Rightarrow> (False, w1)
      | (True, w1) \<Rightarrow>
          (case os_rename e backup_file p w1 of
             (Inl _, w2) \<Rightarrow> (False, w2)
           | (Inr _, w2) \<Rightarrow> (True, w2)))"

text \<open>The loop: the first candidate restored ends it with \<open>True\<close>.\<close>

fun try_backups :: "env \<Rightarrow> path \<Rightarrow> path list \<Rightarrow> world \<Rightarrow> bool \<times> world" where
  "try_backups e p [] w = (False, w)"
| "try_backups e p (backup_file # rest) w =
     (case try_restore e p backup_file w of
        (True, w1) \<Rightarrow> (True, w1)
      | (False, w1) \<Rightarrow> try_backups e p rest w1)"

text \<open>
  \<open>_attempt_recovery\<close>. The listing and the sort stand outside any \<open>try\<close>: when one of
  them raises, the method raises.
\<close>

definition attempt_recovery :: "env \<Rightarrow> path \<Rightarrow> world \<Rightarrow> (exn + bool) \<times> world" where
  "attempt_recovery e p w =
     (case list_backups e p (log (Recovery_started p) w) of
        (Inl err, w1) \<Rightarrow> (Inl err, w1)
      | (Inr backup_files, w1) \<Rightarrow>
          (case stat_keys e backup_files w1 of
             (Inl err, w2) \<Rightarrow> (Inl err, w2)
           | (Inr keys, w2) \<Rightarrow>
               (case try_backups e p (sort_newest_first backup_files keys) w2 of
                  (restored, w3) \<Rightarrow> (Inr restored, w3))))"

text \<open>A method that returns its boolean.\<close>

definition returned :: "bool \<times> world \<Rightarrow> (exn + bool) \<times> world" where
  "returned r = (Inr (fst r), snd r)"

subsection \<open>Acquisition of the GKE kubeconfig\<close>

text \<open>Lines 97 to 111: what a validated GKE kubeconfig is followed by.\<close>

definition gke_created :: "env \<Rightarrow> world \<Rightarrow> bool \<times> world" where
  "gke_created e w =
     (let p = kubeconfig_gke_path e;
          w1 = snd (set_secure_permissions e p w)
      in case calculate_file_checksum e p w1 of
           (digest, w2) \<Rightarrow> (True, store_info p (gke_cluster_name e) ''gke'' digest w2))"

text \<open>
  The retry loop \<open>for attempt in range(1, self.max_retries + 1)\<close>, entered with
  \<open>attempt = 1\<close>. \<open>CommandRunner.run\<close> returns a pair and never raises, and neither do the
  validation and the methods that follow it. The one call of the body that can raise is
  \<open>return self._attempt_recovery(...)\<close> after the last failed attempt: it stands inside
  the \<open>try\<close>, so the handler of the body logs the exception, finds no attempt left
  (no sleep), and the loop ends. Leaving the loop reaches the last line,
  \<open>return self._attempt_recovery(...)\<close>, outside any \<open>try\<close>.
\<close>

function gke_attempts :: "env \<Rightarrow> nat \<Rightarrow> world \<Rightarrow> (exn + bool) \<times> world" where
  "gke_attempts e attempt w =
     (if max_retries < attempt then attempt_recovery e (kubeconfig_gke_path e) w
      else
        (case run e Get_credentials (kubeconfig_gke_path e) False (log (Attempt attempt) w) of
           ((success, output), w1) \<Rightarrow>
             if \<not> success then
               (if attempt < max_retries
                then gke_attempts e (Suc attempt) (time_sleep retry_delay w1)
                else
                  (case attempt_recovery e (kubeconfig_gke_path e) w1 of
                     (Inr restored, w2) \<Rightarrow> (Inr restored, w2)
                   | (Inl _, w2) \<Rightarrow> gke_attempts e (Suc attempt) w2))
             else
               (case validate_kubeconfig_file e (kubeconfig_gke_path e) w1 of
                  (True, w2) \<Rightarrow> returned (gke_created e w2)
                | (False, w2) \<Rightarrow>
                    if attempt < max_retries
                    then gke_attempts e (Suc attempt) (time_sleep retry_delay w2)
                    else gke_attempts e (Suc attempt) w2)))"
  by pat_completeness auto
termination
  by (relation "measure (\<lambda>(e, attempt, w). Suc max_retries - attempt)") auto

declare gke_attempts.simps [simp del]

definition create_gke_kubeconfig :: "env \<Rightarrow> bool \<Rightarrow> world \<Rightarrow> (exn + bool) \<times> world" where
  "create_gke_kubeconfig e force_recreate w =
     (let p = kubeconfig_gke_path e
      in case (if \<not> force_recreate then is_kubeconfig_valid e p w else (False, w)) of
           (True, w1) \<Rightarrow> (Inr True, w1)
         | (False, w1) \<Rightarrow>
             (case ensure_directory_exists e p w1 of
                (False, w2) \<Rightarrow> (Inr False, w2)
              | (True, w2) \<Rightarrow>
                  gke_attempts e 1
                    (if path_exists w2 p then snd (create_backup e p w2) else w2)))"

subsection \<open>Acquisition of the hosted cluster's kubeconfig\<close>

text \<open>
  Lines 182 to 188: decode the secret and check that it is a mapping with the key
  \<open>clusters\<close>; an exception at any step, or the \<open>ValueError\<close> raised by hand, ends in the
  same handler.
\<close>

definition decode_kubeconfig :: "env \<Rightarrow> string \<Rightarrow> exn + string" where
  "decode_kubeconfig e kubeconfig_b64 =
     (case b64decode_utf8 e kubeconfig_b64 of
        None \<Rightarrow> Inl DecodeError
      | Some kubeconfig_data \<Rightarrow>
          (case yaml_safe_load e kubeconfig_data of
             None \<Rightarrow> Inl YAMLError
           | Some (YDict kv) \<Rightarrow>
               if map_of kv ''clusters'' = None then Inl ValueError else Inr kubeconfig_data
           | Some _ \<Rightarrow> Inl ValueError))"

text \<open>
  Lines 201 to 216. The \<open>try\<close> block writes the temporary file, sets its mode and renames
  it over the target. Its handler removes the temporary file if it is there and goes on
  with the next attempt; when the removal itself raises, the exception reaches the
  handler of the loop body.
\<close>

definition write_and_rename :: "env \<Rightarrow> path \<Rightarrow> string \<Rightarrow> world \<Rightarrow> (exn + unit) \<times> world" where
  "write_and_rename e p kubeconfig_data w =
     (let temp_path = p @ ''.tmp''
      in case open_w e temp_path w of
           (Inl x, w1) \<Rightarrow> (Inl x, w1)
         | (Inr _, w1) \<Rightarrow>
         (case f_write e temp_path kubeconfig_data w1 of
           (Inl x, w2) \<Rightarrow> (Inl x, w2)
         | (Inr _, w2) \<Rightarrow>
         (case os_chmod e temp_path 384 w2 of
           (Inl x, w3) \<Rightarrow> (Inl x, w3)
         | (Inr _, w3) \<Rightarrow> os_rename e temp_path p w3)))"

datatype saved = Saved | Write_failed | Cleanup_raised

definition save_kubeconfig :: "env \<Rightarrow> path \<Rightarrow> string \<Rightarrow> world \<Rightarrow> saved \<times> world" where
  "save_kubeconfig e p kubeconfig_data w =
     (case write_and_rename e p kubeconfig_data w of
        (Inr _, w1) \<Rightarrow> (Saved, w1)
      | (Inl _, w1) \<Rightarrow>
          if path_exists w1 (p @ ''.tmp'')
          then (case os_unlink e (p @ ''.tmp'') w1 of
                  (Inl _, w2) \<Rightarrow> (Cleanup_raised, w2)
                | (Inr _, w2) \<Rightarrow> (Write_failed, w2))
          else (Write_failed, w1))"

text \<open>Lines 220 to 231.\<close>

definition hosted_created :: "env \<Rightarrow> world \<Rightarrow> bool \<times> world" where
  "hosted_created e w =
     (let p = kubeconfig_hosted_path e
      in case calculate_file_checksum e p w of
           (digest, w1) \<Rightarrow> (True, store_info p (hosted_cluster_name e) ''hosted'' digest w1))"

text \<open>
  The retry loop of \<open>create_hosted_kubeconfig\<close>. The secret is read with the GKE
  kubeconfig. A failed write goes on with the next attempt at once; an exception that
  reaches the handler of the body sleeps first when an attempt is left. Both calls of
  \<open>_attempt_recovery\<close> in the body stand inside the body's \<open>try\<close> and after the last attempt:
  when they raise, the handler finds no attempt left and the loop ends.
\<close>

function hosted_attempts :: "env \<Rightarrow> nat \<Rightarrow> world \<Rightarrow> (exn + bool) \<times> world" where
  "hosted_attempts e attempt w =
     (if max_retries < attempt then attempt_recovery e (kubeconfig_hosted_path e) w
      else
        (case run e Get_secret (kubeconfig_gke_path e) True (log (Attempt attempt) w) of
           ((success, kubeconfig_b64), w1) \<Rightarrow>
             if \<not> success \<or> strip kubeconfig_b64 = [] then
               (if attempt < max_retries
                then hosted_attempts e (Suc attempt) (time_sleep retry_delay w1)
                else
                  (case attempt_recovery e (kubeconfig_hosted_path e) w1 of
                     (Inr restored, w2) \<Rightarrow> (Inr restored, w2)
                   | (Inl _, w2) \<Rightarrow> hosted_attempts e (Suc attempt) w2))
             else
               (case decode_kubeconfig e kubeconfig_b64 of
                  Inl _ \<Rightarrow>
                    if attempt < max_retries
                    then hosted_attempts e (Suc attempt) (time_sleep retry_delay w1)
                    else
                      (case attempt_recovery e (kubeconfig_hosted_path e) w1 of
                         (Inr restored, w2) \<Rightarrow> (Inr restored, w2)
                       | (Inl _, w2) \<Rightarrow> hosted_attempts e (Suc attempt) w2)
                | Inr kubeconfig_data \<Rightarrow>
                    (case (if \<not> config_dry_run e
                           then save_kubeconfig e (kubeconfig_hosted_path e) kubeconfig_data w1
                           else (Saved, w1)) of
                       (Write_failed, w2) \<Rightarrow> hosted_attempts e (Suc attempt) w2
                     | (Cleanup_raised, w2) \<Rightarrow>
                         if attempt < max_retries
                         then hosted_attempts e (Suc attempt) (time_sleep retry_delay w2)
                         else hosted_attempts e (Suc attempt) w2
                     | (Saved, w2) \<Rightarrow>
                         (case validate_kubeconfig_file e (kubeconfig_hosted_path e) w2 of
                            (True, w3) \<Rightarrow> returned (hosted_created e w3)
                          | (False, w3) \<Rightarrow>
                              if attempt < max_retries
                              then hosted_attempts e (Suc attempt) (time_sleep retry_delay w3)
                              else hosted_attempts e (Suc attempt) w3)))))"
  by pat_completeness auto
termination
  by (relation "measure (\<lambda>(e, attempt, w). Suc max_retries - attempt)") auto

declare hosted_attempts.simps [simp del]

definition create_hosted_kubeconfig :: "env \<Rightarrow> bool \<Rightarrow> world \<Rightarrow> (exn + bool) \<times> world" where
  "create_hosted_kubeconfig e force_recreate w =
     (let p = kubeconfig_hosted_path e
      in case (if \<not> force_recreate then is_kubeconfig_valid e p w else (False, w)) of
           (True, w1) \<Rightarrow> (Inr True, w1)
         | (False, w1) \<Rightarrow>
             (case ensure_directory_exists e p w1 of
                (False, w2) \<Rightarrow> (Inr False, w2)
              | (True, w2) \<Rightarrow>
                  hosted_attempts e 1
                    (if path_exists w2 p then snd (create_backup e p w2) else w2)))"

subsection \<open>Refreshing both\<close>

text \<open>An exception of either call leaves \<open>refresh_kubeconfigs\<close> as it is.\<close>

definition refresh_kubeconfigs :: "env \<Rightarrow> world \<Rightarrow> (exn + bool) \<times> world" where
  "refresh_kubeconfigs e w =
     (case create_gke_kubeconfig e True w of
        (Inl err, w1) \<Rightarrow> (Inl err, w1)
      | (Inr gke_success, w1) \<Rightarrow>
          if \<not> gke_success then (Inr False, w1)
          else
            (case create_hosted_kubeconfig e True w1 of
               (Inl err, w2) \<Rightarrow> (Inl err, w2)
             | (Inr hosted_success, w2) \<Rightarrow>
                 if \<not> hosted_success then (Inr False, w2) else (Inr True, w2)))"

subsection \<open>Auxiliary notions for the statements\<close>

text \<open>Two worlds that differ at most in the count of file-system operations.\<close>

definition same_but_ticks :: "world \<Rightarrow> world \<Rightarrow> bool" where
  "same_but_ticks w w' = (w' = w\<lparr>ticks := ticks w'\<rparr>)"

text \<open>
  The events that belong to the retry logic: every attempt, every sleep, every run of an
  acquisition command and every entry into recovery. The connectivity probe and the
  permission warning are left out.
\<close>

fun retry_event :: "event \<Rightarrow> bool" where
  "retry_event (Attempt n) = True"
| "retry_event (Slept d) = True"
| "retry_event (Ran cmd kc) = (cmd \<noteq> Cluster_info)"
| "retry_event (Recovery_started p) = True"
| "retry_event (Warn_permissive p) = False"

text \<open>
  Whether the acquisition procedure of an attempt, started in a given world, delivers:
  for the GKE role the command has to succeed; for the hosted role the command has to
  succeed with a non-blank output that decodes to a mapping with the key \<open>clusters\<close>.
\<close>

definition gke_acquired :: "env \<Rightarrow> world \<Rightarrow> bool" where
  "gke_acquired e w = fst (fst (run e Get_credentials (kubeconfig_gke_path e) False w))"

definition hosted_acquired :: "env \<Rightarrow> world \<Rightarrow> bool" where
  "hosted_acquired e w =
     (case run e Get_secret (kubeconfig_gke_path e) True w of
        ((success, kubeconfig_b64), _) \<Rightarrow>
          success \<and> strip kubeconfig_b64 \<noteq> [] \<and>
          (case decode_kubeconfig e kubeconfig_b64 of Inl _ \<Rightarrow> False | Inr _ \<Rightarrow> True))"

text \<open>Operations that leave the log, the clock, the command count and the records alone.\<close>

definition quiet :: "world \<Rightarrow> world \<Rightarrow> bool" where
  "quiet w w' = (trace w' = trace w \<and> calls w' = calls w \<and> clock w' = clock w \<and>
                 info w' = info w \<and> dirs w' = dirs w)"

text \<open>The two entry points, with the early returns and the backup spelled out.\<close>

definition after_fast_path :: "env \<Rightarrow> path \<Rightarrow> bool \<Rightarrow> world \<Rightarrow> world" where
  "after_fast_path e p force w = (if force then w else snd (is_kubeconfig_valid e p w))"

definition reaches_loop :: "env \<Rightarrow> path \<Rightarrow> bool \<Rightarrow> world \<Rightarrow> bool" where
  "reaches_loop e p force w =
     ((force \<or> \<not> fst (is_kubeconfig_valid e p w)) \<and>
      fst (ensure_directory_exists e p (after_fast_path e p force w)))"

definition loop_entry :: "env \<Rightarrow> path \<Rightarrow> bool \<Rightarrow> world \<Rightarrow> world" where
  "loop_entry e p force w =
     (let w2 = snd (ensure_directory_exists e p (after_fast_path e p force w))
      in if path_exists w2 p then snd (create_backup e p w2) else w2)"

text \<open>The modification time of a file that is there.\<close>

definition st_mtime :: "world \<Rightarrow> path \<Rightarrow> int" where
  "st_mtime w x = (case lookup w x of None \<Rightarrow> 0 | Some f \<Rightarrow> mtime f)"

text \<open>
  Recovery as the retry loops enter it after the last failed attempt: from inside the
  body's \<open>try\<close>, and once more from the last line of the method when that first entry
  raised.
\<close>

definition recovery_after_last_attempt :: "env \<Rightarrow> path \<Rightarrow> world \<Rightarrow> (exn + bool) \<times> world" where
  "recovery_after_last_attempt e p w =
     (case attempt_recovery e p w of
        (Inr restored, w1) \<Rightarrow> (Inr restored, w1)
      | (Inl _, w1) \<Rightarrow> attempt_recovery e p w1)"

text \<open>
  The world in which the \<open>i\<close>-th candidate of a list is tried, when the candidates before
  it were not restored.
\<close>

definition tried_before :: "env \<Rightarrow> path \<Rightarrow> path list \<Rightarrow> world \<Rightarrow> nat \<Rightarrow> world" where
  "tried_before e p bs w i = fold (\<lambda>b v. snd (try_restore e p b v)) (take i bs) w"

text \<open>The runs of \<open>kubectl get secret\<close>, the hosted role's acquisition command.\<close>

fun ran_secret :: "event \<Rightarrow> bool" where
  "ran_secret (Ran cmd kc) = (cmd = Get_secret)"
| "ran_secret ev = False"

text \<open>
  What a run for the target \<open>p\<close> may change: \<open>p\<close> itself and the paths that start with
  \<open>p.backup.\<close>; and it runs no \<open>kubectl get secret\<close>.
\<close>

definition footprint :: "path \<Rightarrow> world \<Rightarrow> world \<Rightarrow> bool" where
  "footprint p w w' =
     ((\<forall>q. q \<noteq> p \<and> \<not> prefix (p @ ''.backup.'') q \<longrightarrow> lookup w' q = lookup w q) \<and>
      filter ran_secret (trace w') = filter ran_secret (trace w))"

text \<open>No file named like a backup of \<open>p\<close> is created or rewritten: each is as before or gone.\<close>

definition no_new_backups :: "path \<Rightarrow> world \<Rightarrow> world \<Rightarrow> bool" where
  "no_new_backups p w w' =
     (\<forall>q. is_backup_name p q \<longrightarrow> lookup w' q = lookup w q \<or> lookup w' q = None)"

subsection \<open>Concrete environments and worlds\<close>

text \<open>
  A small parser, a runner whose commands all succeed and a file system without faults,
  to instantiate the theorems.
\<close>

definition toy_yaml :: "string \<Rightarrow> yaml option" where
  "toy_yaml s =
     (if s = ''good'' then
        Some (YDict [(''clusters'', YList [YScalar ''c'']),
                     (''contexts'', YList [YScalar ''x'']),
                     (''users'', YList [YScalar ''u''])])
      else if s = ''no-users'' then
        Some (YDict [(''clusters'', YList [YScalar ''c'']),
                     (''contexts'', YList [YScalar ''x'']),
                     (''users'', YList [])])
      else if s = ''list'' then Some (YList [YScalar ''c''])
      else None)"

definition succeed :: completed where
  "succeed = \<lparr>outcome = Exited 0 [] [], kubeconfig_written = None, elapsed = 1\<rparr>"

definition env0 :: env where
  "env0 =
     \<lparr>kubeconfig_gke_path = ''/tmp/kubeconfig-gke'',
      kubeconfig_hosted_path = ''/tmp/kubeconfig-hosted'',
      gke_cluster_name = ''mgmt'',
      hosted_cluster_name = ''hc'',
      config_dry_run = False,
      runner_dry_run = False,
      subprocess_run = (\<lambda>n cmd kc. succeed),
      faults = (\<lambda>n. False),
      yaml_safe_load = toy_yaml,
      b64decode_utf8 = (\<lambda>s. if s = ''Z29vZA=='' then Some ''good'' else None),
      sha256_hexdigest = (\<lambda>s. ''sha256:'' @ s),
      new_file_mode = 420\<rparr>"

definition world_of :: "(path \<times> inode) list \<Rightarrow> world" where
  "world_of fs =
     \<lparr>files = fs, dirs = [(''/tmp'', 1023)], clock = 1000, ticks = 0, calls = 0,
      trace = [], info = []\<rparr>"

definition refuse :: completed where
  "refuse = \<lparr>outcome = Exited 1 [] ''Unable to connect'', kubeconfig_written = None, elapsed = 1\<rparr>"

definition good_file :: inode where
  "good_file = \<lparr>content = ''good'', mode = 384, mtime = 7\<rparr>"

text \<open>An environment in which every external command exits with 1.\<close>

definition env_refusing :: env where
  "env_refusing = env0\<lparr>subprocess_run := (\<lambda>n cmd kc. refuse)\<rparr>"

text \<open>
  Three backups of \<open>/k\<close> with distinct modification times, listed out of order; only
  the oldest is a valid kubeconfig.
\<close>

definition three_backups :: world where
  "three_backups =
     world_of [(''/k.backup.1'', \<lparr>content = ''good'', mode = 384, mtime = 10\<rparr>),
               (''/k.backup.3'', \<lparr>content = ''junk'', mode = 384, mtime = 30\<rparr>),
               (''/k.backup.2'', \<lparr>content = ''list'', mode = 384, mtime = 20\<rparr>),
               (''/k'', \<lparr>content = ''junk'', mode = 384, mtime = 40\<rparr>)]"

text \<open>An environment in which \<open>gcloud\<close> succeeds and writes a valid kubeconfig with mode \<open>0o644\<close>.\<close>

definition env_writing :: env where
  "env_writing =
     env0\<lparr>subprocess_run :=
            (\<lambda>n cmd kc. succeed\<lparr>kubeconfig_written :=
                                    Some \<lparr>content = ''good'', mode = 420, mtime = 2000\<rparr>\<rparr>)\<rparr>"

text \<open>A world whose GKE kubeconfig is there and is not a kubeconfig.\<close>

definition stale_target :: world where
  "stale_target = world_of [(''/tmp/kubeconfig-gke'', \<lparr>content = ''junk'', mode = 384, mtime = 7\<rparr>)]"

text \<open>As \<open>env_writing\<close>, and the fourth file-system operation of the run raises.\<close>

definition env_chmod_fails :: env where
  "env_chmod_fails = env_writing\<lparr>faults := (\<lambda>n. n = 3)\<rparr>"

text \<open>
  An environment in which \<open>kubectl get secret\<close> prints the base64 of a valid kubeconfig,
  and one in which, besides, every file-system operation raises.
\<close>

definition env_secret :: env where
  "env_secret =
     env0\<lparr>subprocess_run := (\<lambda>n cmd kc. succeed\<lparr>outcome := Exited 0 ''Z29vZA=='' []\<rparr>)\<rparr>"

definition env_disk_full :: env where
  "env_disk_full = env_secret\<lparr>faults := (\<lambda>n. True)\<rparr>"


text \<open>
  An environment in which \<open>gcloud\<close> fails and the probe succeeds. A world with a valid
  backup of the GKE kubeconfig and, listed after it, a newer entry named like a backup.
  And the same environment when \<open>os.stat\<close> raises on that entry, as it does on a symbolic
  link to nothing, each of the two times the sort of a forced GKE request asks for it.
\<close>

definition env_gcloud_down :: env where
  "env_gcloud_down =
     env0\<lparr>subprocess_run := (\<lambda>n cmd kc. if cmd = Get_credentials then refuse else succeed)\<rparr>"

definition backup_and_link :: world where
  "backup_and_link =
     world_of [(''/tmp/kubeconfig-gke.backup.1'', good_file),
               (''/tmp/kubeconfig-gke.backup.2'', \<lparr>content = [], mode = 511, mtime = 9\<rparr>)]"

definition env_stat_raises :: env where
  "env_stat_raises = env_gcloud_down\<lparr>faults := (\<lambda>n. n = 3 \<or> n = 6)\<rparr>"

text \<open>
  As \<open>env_writing\<close>, and the read of \<open>_create_backup\<close> raises when the backup is the first
  thing a request does after creating the directory.
\<close>

definition env_backup_read_fails :: env where
  "env_backup_read_fails = env_writing\<lparr>faults := (\<lambda>n. n = 3)\<rparr>"
section \<open>Properties\<close>

subsection \<open>Structural validation\<close>

lemma load_document_eq:
  "fst (load_document e p w) =
     (case lookup w p of
        None \<Rightarrow> Inl OSError
      | Some f \<Rightarrow>
          if faults e (ticks w) \<or> faults e (Suc (ticks w)) then Inl OSError
          else (case yaml_safe_load e (content f) of None \<Rightarrow> Inl YAMLError | Some y \<Rightarrow> Inr y))"
  by (simp add: load_document_def open_r_def f_read_def fault_def tick_def lookup_def
           split: option.splits)

lemma load_document_frame: "same_but_ticks w (snd (load_document e p w))"
  by (simp add: same_but_ticks_def load_document_def open_r_def f_read_def fault_def tick_def
        lookup_def split: option.splits)

lemma validate_frame: "same_but_ticks w (snd (validate_kubeconfig_file e p w))"
  using load_document_frame[of w e p]
  by (auto simp: validate_kubeconfig_file_def validate_body_def
           split: prod.splits sum.splits yaml.splits)

lemma nonempty_section_iff:
  "nonempty_section kv key \<longleftrightarrow> (\<exists>xs. map_of kv key = Some (YList xs) \<and> xs \<noteq> [])"
  by (auto simp: nonempty_section_def split: option.splits yaml.splits)

lemma validate_iff:
  "fst (validate_kubeconfig_file e p w) \<longleftrightarrow>
     (\<exists>kv. fst (load_document e p w) = Inr (YDict kv) \<and>
        (\<forall>key \<in> set required_keys. \<exists>xs. map_of kv key = Some (YList xs) \<and> xs \<noteq> []))"
  by (auto simp: validate_kubeconfig_file_def validate_body_def list_ex_iff list_all_iff
       nonempty_section_iff split: prod.splits sum.splits yaml.splits)

lemma validate_body_raises:
  "fst (validate_body e p w) = Inl x \<Longrightarrow> \<not> fst (validate_kubeconfig_file e p w)"
  by (auto simp: validate_kubeconfig_file_def split: prod.splits sum.splits)

text \<open>
  C7. \<open>_validate_kubeconfig_file\<close> returns \<open>False\<close> exactly when the document cannot be
  loaded (the file cannot be opened or read, or its content does not parse), or the
  loaded value is not a mapping, or one of \<open>clusters\<close>, \<open>contexts\<close>, \<open>users\<close> is absent,
  or one of them is not a non-empty sequence. Its only result is the boolean; an
  exception in its body becomes the result \<open>False\<close>; and it leaves the files, the
  directories and everything else but the count of I/O operations as they were.
\<close>

theorem validate_kubeconfig_file_spec:
  fixes e :: env and p :: path and w :: world
  defines "doc \<equiv> fst (load_document e p w)"
  defines "w' \<equiv> snd (validate_kubeconfig_file e p w)"
  shows "(\<not> fst (validate_kubeconfig_file e p w) \<longleftrightarrow>
            (\<exists>x. doc = Inl x)
          \<or> (\<exists>y. doc = Inr y \<and> (\<forall>kv. y \<noteq> YDict kv))
          \<or> (\<exists>kv. doc = Inr (YDict kv) \<and>
                (\<exists>key \<in> {''clusters'', ''contexts'', ''users''}. map_of kv key = None))
          \<or> (\<exists>kv. doc = Inr (YDict kv) \<and>
                (\<exists>key \<in> {''clusters'', ''contexts'', ''users''}.
                   \<not> (\<exists>xs. map_of kv key = Some (YList xs) \<and> xs \<noteq> []))))
       \<and> ((\<exists>x. doc = Inl x) \<longleftrightarrow>
            (case lookup w p of
               None \<Rightarrow> True
             | Some f \<Rightarrow> faults e (ticks w) \<or> faults e (Suc (ticks w))
                          \<or> yaml_safe_load e (content f) = None))
       \<and> ((\<exists>x. fst (validate_body e p w) = Inl x) \<longrightarrow> \<not> fst (validate_kubeconfig_file e p w))
       \<and> files w' = files w \<and> dirs w' = dirs w \<and> trace w' = trace w \<and> calls w' = calls w
       \<and> clock w' = clock w \<and> info w' = info w"
proof -
  have keys: "set required_keys = {''clusters'', ''contexts'', ''users''}"
    by (simp add: required_keys_def)
  have a: "(\<not> fst (validate_kubeconfig_file e p w)) =
            ((\<exists>x. doc = Inl x)
          \<or> (\<exists>y. doc = Inr y \<and> (\<forall>kv. y \<noteq> YDict kv))
          \<or> (\<exists>kv. doc = Inr (YDict kv) \<and>
                (\<exists>key \<in> {''clusters'', ''contexts'', ''users''}. map_of kv key = None))
          \<or> (\<exists>kv. doc = Inr (YDict kv) \<and>
                (\<exists>key \<in> {''clusters'', ''contexts'', ''users''}.
                   \<not> (\<exists>xs. map_of kv key = Some (YList xs) \<and> xs \<noteq> []))))"
    unfolding validate_iff keys doc_def
    by (cases "fst (load_document e p w)") (auto; metis yaml.exhaust)+
  have b: "(\<exists>x. doc = Inl x) \<longleftrightarrow>
            (case lookup w p of
               None \<Rightarrow> True
             | Some f \<Rightarrow> faults e (ticks w) \<or> faults e (Suc (ticks w))
                          \<or> yaml_safe_load e (content f) = None)"
    unfolding doc_def load_document_eq by (auto split: option.splits)
  have c: "(\<exists>x. fst (validate_body e p w) = Inl x) \<longrightarrow> \<not> fst (validate_kubeconfig_file e p w)"
    using validate_body_raises by blast
  have d: "w' = w\<lparr>ticks := ticks w'\<rparr>"
    using validate_frame[of w e p] by (simp add: same_but_ticks_def w'_def)
  have f: "files w' = files w \<and> dirs w' = dirs w \<and> trace w' = trace w \<and> calls w' = calls w
       \<and> clock w' = clock w \<and> info w' = info w"
    by (subst d, simp)+
  from a b c f show ?thesis by blast
qed

theorem validate_kubeconfig_file_spec_witness:
  "\<not> fst (validate_kubeconfig_file env0 ''/tmp/kubeconfig-gke''
            (world_of [(''/tmp/kubeconfig-gke'', \<lparr>content = ''no-users'', mode = 384, mtime = 7\<rparr>)]))
   \<and> fst (validate_kubeconfig_file env0 ''/tmp/kubeconfig-gke''
            (world_of [(''/tmp/kubeconfig-gke'', \<lparr>content = ''good'', mode = 384, mtime = 7\<rparr>)]))
   \<and> files (snd (validate_kubeconfig_file env0 ''/tmp/kubeconfig-gke''
            (world_of [(''/tmp/kubeconfig-gke'', \<lparr>content = ''good'', mode = 384, mtime = 7\<rparr>)])))
       = [(''/tmp/kubeconfig-gke'', \<lparr>content = ''good'', mode = 384, mtime = 7\<rparr>)]"
  using validate_kubeconfig_file_spec [of env0 "''/tmp/kubeconfig-gke''"
          "world_of [(''/tmp/kubeconfig-gke'', \<lparr>content = ''no-users'', mode = 384, mtime = 7\<rparr>)]"]
        validate_kubeconfig_file_spec [of env0 "''/tmp/kubeconfig-gke''"
          "world_of [(''/tmp/kubeconfig-gke'', \<lparr>content = ''good'', mode = 384, mtime = 7\<rparr>)]"]
  by (simp add: load_document_eq lookup_def world_of_def env0_def toy_yaml_def)

subsection \<open>Validity of a kubeconfig\<close>

lemma same_but_ticks_fields:
  assumes "same_but_ticks w w'"
  shows "files w' = files w" "dirs w' = dirs w" "trace w' = trace w" "calls w' = calls w"
        "clock w' = clock w" "info w' = info w"
  by (subst assms[unfolded same_but_ticks_def], simp)+

lemmas validate_fields [simp] = same_but_ticks_fields [OF validate_frame]

lemma lookup_same_but_ticks: "same_but_ticks w w' \<Longrightarrow> lookup w' q = lookup w q"
  by (simp add: lookup_def same_but_ticks_fields)

lemma validate_lookup [simp]: "lookup (snd (validate_kubeconfig_file e p w)) q = lookup w q"
  by (rule lookup_same_but_ticks[OF validate_frame])

lemma validate_cong:
  assumes "map_option content (lookup wa p) = map_option content (lookup wb p)"
      and "ticks wa = ticks wb"
  shows "fst (validate_kubeconfig_file e p wa) = fst (validate_kubeconfig_file e p wb)"
proof -
  have "fst (load_document e p wa) = fst (load_document e p wb)"
    using assms unfolding load_document_eq
    by (cases "lookup wa p"; cases "lookup wb p") auto
  then show ?thesis by (simp add: validate_iff)
qed

lemma check_permissions_eq:
  "check_permissions e p w =
     (case lookup w p of
        None \<Rightarrow> tick w
      | Some f \<Rightarrow>
          if \<not> faults e (ticks w) \<and> mode f AND 63 \<noteq> 0
          then log (Warn_permissive p) (tick w) else tick w)"
  by (simp add: check_permissions_def os_stat_def fault_def split: option.splits)

lemma check_permissions_fields [simp]:
  "files (check_permissions e p w) = files w"
  "dirs (check_permissions e p w) = dirs w"
  "calls (check_permissions e p w) = calls w"
  "clock (check_permissions e p w) = clock w"
  "info (check_permissions e p w) = info w"
  "ticks (check_permissions e p w) = Suc (ticks w)"
  by (simp_all add: check_permissions_eq tick_def log_def split: option.splits)

lemma check_permissions_lookup [simp]: "lookup (check_permissions e p w) q = lookup w q"
  by (simp add: lookup_def)

lemma connectivity_iff:
  "fst (test_kubeconfig_connectivity e p w) \<longleftrightarrow>
     runner_dry_run e \<or>
     (\<exists>out err. outcome (subprocess_run e (calls w) Cluster_info p) = Exited 0 out err)"
  by (auto simp: test_kubeconfig_connectivity_def run_def Let_def split: prod.splits proc.splits if_splits)

lemma connectivity_cong:
  "calls wa = calls wb \<Longrightarrow>
   fst (test_kubeconfig_connectivity e p wa) = fst (test_kubeconfig_connectivity e p wb)"
  by (simp add: connectivity_iff)

lemma is_valid_iff:
  "fst (is_kubeconfig_valid e p w) \<longleftrightarrow>
     path_exists w p \<and> fst (validate_kubeconfig_file e p (check_permissions e p w))
     \<and> fst (test_kubeconfig_connectivity e p
              (snd (validate_kubeconfig_file e p (check_permissions e p w))))"
  by (auto simp: is_kubeconfig_valid_def Let_def split: prod.splits bool.splits)

text \<open>
  C6. \<open>_is_kubeconfig_valid\<close> returns \<open>True\<close> exactly when the file exists, passes the
  structural validation and passes the connectivity probe. A file that passes the
  structure and fails the probe is invalid, a file that fails the structure is invalid
  whatever the probe would say, and a missing file is invalid. The probe passes exactly
  when the command exits with 0 (or the runner is in dry-run mode); the structural check
  is the one of the file as it is, after the one I/O operation of the permission check.
\<close>

theorem is_kubeconfig_valid_conjunctive:
  fixes e :: env and p :: path and w :: world
  defines "w1 \<equiv> check_permissions e p w"
  defines "w2 \<equiv> snd (validate_kubeconfig_file e p w1)"
  shows "(fst (is_kubeconfig_valid e p w) \<longleftrightarrow>
            path_exists w p \<and> fst (validate_kubeconfig_file e p w1)
            \<and> fst (test_kubeconfig_connectivity e p w2))
       \<and> (fst (validate_kubeconfig_file e p w1) \<and> \<not> fst (test_kubeconfig_connectivity e p w2)
            \<longrightarrow> \<not> fst (is_kubeconfig_valid e p w))
       \<and> (\<not> fst (validate_kubeconfig_file e p w1) \<longrightarrow> \<not> fst (is_kubeconfig_valid e p w))
       \<and> (\<not> path_exists w p \<longrightarrow> \<not> fst (is_kubeconfig_valid e p w))
       \<and> (fst (test_kubeconfig_connectivity e p w2) \<longleftrightarrow>
            runner_dry_run e \<or>
            (\<exists>out err. outcome (subprocess_run e (calls w) Cluster_info p) = Exited 0 out err))
       \<and> (fst (validate_kubeconfig_file e p w1) \<longleftrightarrow>
            fst (validate_kubeconfig_file e p (tick w)))"
proof -
  have main: "fst (is_kubeconfig_valid e p w) \<longleftrightarrow>
            path_exists w p \<and> fst (validate_kubeconfig_file e p w1)
            \<and> fst (test_kubeconfig_connectivity e p w2)"
    unfolding w1_def w2_def by (rule is_valid_iff)
  have "calls w2 = calls w"
    by (simp add: w2_def w1_def)
  then have probe: "fst (test_kubeconfig_connectivity e p w2) \<longleftrightarrow>
            runner_dry_run e \<or>
            (\<exists>out err. outcome (subprocess_run e (calls w) Cluster_info p) = Exited 0 out err)"
    by (simp add: connectivity_iff)
  have struct: "fst (validate_kubeconfig_file e p w1) \<longleftrightarrow>
            fst (validate_kubeconfig_file e p (tick w))"
    unfolding w1_def by (rule validate_cong) (simp_all add: lookup_def tick_def)
  from main probe struct show ?thesis by blast
qed




theorem is_kubeconfig_valid_conjunctive_witness:
  "fst (validate_kubeconfig_file (env0\<lparr>subprocess_run := (\<lambda>n cmd kc. refuse)\<rparr>) ''/tmp/kubeconfig-gke''
          (check_permissions (env0\<lparr>subprocess_run := (\<lambda>n cmd kc. refuse)\<rparr>) ''/tmp/kubeconfig-gke''
             (world_of [(''/tmp/kubeconfig-gke'', good_file)])))
   \<and> \<not> fst (is_kubeconfig_valid (env0\<lparr>subprocess_run := (\<lambda>n cmd kc. refuse)\<rparr>)
              ''/tmp/kubeconfig-gke'' (world_of [(''/tmp/kubeconfig-gke'', good_file)]))
   \<and> fst (is_kubeconfig_valid env0 ''/tmp/kubeconfig-gke''
              (world_of [(''/tmp/kubeconfig-gke'', good_file)]))
   \<and> \<not> fst (is_kubeconfig_valid env0 ''/tmp/kubeconfig-gke''
              (world_of [(''/tmp/kubeconfig-gke'', good_file\<lparr>content := ''list''\<rparr>)]))"
  using is_kubeconfig_valid_conjunctive [of "env0\<lparr>subprocess_run := (\<lambda>n cmd kc. refuse)\<rparr>"
          "''/tmp/kubeconfig-gke''" "world_of [(''/tmp/kubeconfig-gke'', good_file)]"]
        is_kubeconfig_valid_conjunctive [of env0
          "''/tmp/kubeconfig-gke''" "world_of [(''/tmp/kubeconfig-gke'', good_file)]"]
        is_kubeconfig_valid_conjunctive [of env0
          "''/tmp/kubeconfig-gke''" "world_of [(''/tmp/kubeconfig-gke'', good_file\<lparr>content := ''list''\<rparr>)]"]
  by (simp add: validate_iff load_document_eq lookup_def world_of_def env0_def toy_yaml_def
        good_file_def refuse_def succeed_def tick_def path_exists_def required_keys_def)

text \<open>
  C10. The permission bits never make \<open>_is_kubeconfig_valid\<close> return \<open>False\<close>: the
  result is the same whatever the mode of the file, and the same whether reading the
  mode (\<open>os.stat\<close>) raises or not. The permission check changes the log at most: a
  warning when the mode has a group or world bit. So a file with such bits that passes
  the structure and the probe is valid.
\<close>

theorem is_kubeconfig_valid_ignores_permissions:
  assumes "lookup w p = Some f"
  shows "fst (is_kubeconfig_valid e p (w\<lparr>files := AList.update p (f\<lparr>mode := m\<rparr>) (files w)\<rparr>))
           = fst (is_kubeconfig_valid e p w)
       \<and> fst (is_kubeconfig_valid (e\<lparr>faults := (faults e)(ticks w := b)\<rparr>) p w)
           = fst (is_kubeconfig_valid e p w)
       \<and> check_permissions e p w =
           (if \<not> faults e (ticks w) \<and> mode f AND 63 \<noteq> 0
            then log (Warn_permissive p) (tick w) else tick w)
       \<and> (mode f AND 63 \<noteq> 0 \<and> fst (validate_kubeconfig_file e p (tick w))
            \<and> fst (test_kubeconfig_connectivity e p w) \<longrightarrow> fst (is_kubeconfig_valid e p w))"
proof -
  let ?w' = "w\<lparr>files := AList.update p (f\<lparr>mode := m\<rparr>) (files w)\<rparr>"
  let ?e' = "e\<lparr>faults := (faults e)(ticks w := b)\<rparr>"
  have lk: "lookup ?w' p = Some (f\<lparr>mode := m\<rparr>)"
    by (simp add: lookup_def update_conv')
  have ex: "path_exists ?w' p = path_exists w p"
    using assms lk by (simp add: path_exists_def)
  have v1: "fst (validate_kubeconfig_file e p (check_permissions e p ?w'))
          = fst (validate_kubeconfig_file e p (check_permissions e p w))"
    by (rule validate_cong) (use assms lk in simp_all)
  have c1: "fst (test_kubeconfig_connectivity e p
                  (snd (validate_kubeconfig_file e p (check_permissions e p ?w'))))
          = fst (test_kubeconfig_connectivity e p
                  (snd (validate_kubeconfig_file e p (check_permissions e p w))))"
    by (rule connectivity_cong) simp
  have modes: "fst (is_kubeconfig_valid e p ?w') = fst (is_kubeconfig_valid e p w)"
    unfolding is_valid_iff ex v1 c1 ..
  have ld: "fst (load_document ?e' p (tick w)) = fst (load_document e p (tick w))"
    by (simp add: load_document_eq tick_def lookup_def split: option.splits)
  have v2: "fst (validate_kubeconfig_file ?e' p (check_permissions ?e' p w))
          = fst (validate_kubeconfig_file e p (check_permissions e p w))"
  proof -
    have "fst (validate_kubeconfig_file ?e' p (check_permissions ?e' p w))
            = fst (validate_kubeconfig_file ?e' p (tick w))"
      by (rule validate_cong) (simp_all add: lookup_def tick_def)
    also have "\<dots> = fst (validate_kubeconfig_file e p (tick w))"
      using ld by (simp add: validate_iff)
    also have "\<dots> = fst (validate_kubeconfig_file e p (check_permissions e p w))"
      by (rule validate_cong) (simp_all add: lookup_def tick_def)
    finally show ?thesis .
  qed
  have c2: "fst (test_kubeconfig_connectivity ?e' p
                  (snd (validate_kubeconfig_file ?e' p (check_permissions ?e' p w))))
          = fst (test_kubeconfig_connectivity e p
                  (snd (validate_kubeconfig_file e p (check_permissions e p w))))"
    by (simp add: connectivity_iff)
  have stat: "fst (is_kubeconfig_valid ?e' p w) = fst (is_kubeconfig_valid e p w)"
    unfolding is_valid_iff v2 c2 ..
  have perm: "check_permissions e p w =
           (if \<not> faults e (ticks w) \<and> mode f AND 63 \<noteq> 0
            then log (Warn_permissive p) (tick w) else tick w)"
    using assms by (simp add: check_permissions_eq)
  have v3: "fst (validate_kubeconfig_file e p (check_permissions e p w))
          = fst (validate_kubeconfig_file e p (tick w))"
    by (rule validate_cong) (simp_all add: lookup_def tick_def)
  have c3: "fst (test_kubeconfig_connectivity e p
                  (snd (validate_kubeconfig_file e p (check_permissions e p w))))
          = fst (test_kubeconfig_connectivity e p w)"
    by (rule connectivity_cong) simp
  have pass: "mode f AND 63 \<noteq> 0 \<and> fst (validate_kubeconfig_file e p (tick w))
            \<and> fst (test_kubeconfig_connectivity e p w) \<longrightarrow> fst (is_kubeconfig_valid e p w)"
    using assms unfolding is_valid_iff v3 c3 by (simp add: path_exists_def)
  from modes stat perm pass show ?thesis by blast
qed

theorem is_kubeconfig_valid_ignores_permissions_witness:
  "lookup (world_of [(''/tmp/kubeconfig-gke'', good_file)]) ''/tmp/kubeconfig-gke'' = Some good_file
   \<and> fst (is_kubeconfig_valid env0 ''/tmp/kubeconfig-gke''
            (world_of [(''/tmp/kubeconfig-gke'', good_file\<lparr>mode := 511\<rparr>)]))
   \<and> trace (snd (is_kubeconfig_valid env0 ''/tmp/kubeconfig-gke''
            (world_of [(''/tmp/kubeconfig-gke'', good_file\<lparr>mode := 511\<rparr>)])))
       = [Warn_permissive ''/tmp/kubeconfig-gke'', Ran Cluster_info ''/tmp/kubeconfig-gke'']
   \<and> fst (is_kubeconfig_valid (env0\<lparr>faults := (faults env0)(0 := True)\<rparr>) ''/tmp/kubeconfig-gke''
            (world_of [(''/tmp/kubeconfig-gke'', good_file)]))"
proof -
  let ?p = "''/tmp/kubeconfig-gke''"
  let ?w = "world_of [(?p, good_file)]"
  have lk: "lookup ?w ?p = Some good_file"
    by (simp add: lookup_def world_of_def)
  have base: "fst (is_kubeconfig_valid env0 ?p ?w)"
    by (simp add: is_valid_iff validate_iff load_document_eq connectivity_iff lookup_def
          world_of_def env0_def toy_yaml_def good_file_def succeed_def path_exists_def
          required_keys_def)
  have w511: "?w\<lparr>files := AList.update ?p (good_file\<lparr>mode := 511\<rparr>) (files ?w)\<rparr>
               = world_of [(?p, good_file\<lparr>mode := 511\<rparr>)]"
    by (simp add: world_of_def)
  have t0: "ticks ?w = 0" by (simp add: world_of_def)
  note inst = is_kubeconfig_valid_ignores_permissions [OF lk, of env0 511 True]
  have a: "fst (is_kubeconfig_valid env0 ?p (world_of [(?p, good_file\<lparr>mode := 511\<rparr>)]))"
    using inst base by (simp add: w511)
  have b: "fst (is_kubeconfig_valid (env0\<lparr>faults := (faults env0)(0 := True)\<rparr>) ?p ?w)"
    using inst base by (simp add: t0)
  have c: "trace (snd (is_kubeconfig_valid env0 ?p (world_of [(?p, good_file\<lparr>mode := 511\<rparr>)])))
       = [Warn_permissive ?p, Ran Cluster_info ?p]"
    by (simp add: is_kubeconfig_valid_def check_permissions_eq validate_kubeconfig_file_def
          validate_body_def load_document_def open_r_def f_read_def fault_def
          test_kubeconfig_connectivity_def run_def subprocess_effect_def
          lookup_def tick_def log_def Let_def
          world_of_def env0_def toy_yaml_def good_file_def succeed_def path_exists_def
          required_keys_def nonempty_section_def)
  from lk a b c show ?thesis by blast
qed

subsection \<open>Fast path and directory creation\<close>

lemma connectivity_fields [simp]:
  "files (snd (test_kubeconfig_connectivity e p w)) = files w"
  "dirs (snd (test_kubeconfig_connectivity e p w)) = dirs w"
  "info (snd (test_kubeconfig_connectivity e p w)) = info w"
  "ticks (snd (test_kubeconfig_connectivity e p w)) = ticks w"
  "filter retry_event (trace (snd (test_kubeconfig_connectivity e p w))) = filter retry_event (trace w)"
  by (simp_all add: test_kubeconfig_connectivity_def run_def subprocess_effect_def Let_def
        split: prod.splits proc.splits)

lemma check_permissions_trace [simp]:
  "filter retry_event (trace (check_permissions e p w)) = filter retry_event (trace w)"
  by (simp add: check_permissions_eq tick_def log_def split: option.splits)

lemma is_valid_snd:
  "snd (is_kubeconfig_valid e p w) =
     (if \<not> path_exists w p then w
      else if fst (validate_kubeconfig_file e p (check_permissions e p w))
      then snd (test_kubeconfig_connectivity e p
                  (snd (validate_kubeconfig_file e p (check_permissions e p w))))
      else snd (validate_kubeconfig_file e p (check_permissions e p w)))"
  by (auto simp: is_kubeconfig_valid_def Let_def split: prod.splits bool.splits)

lemma is_valid_fields [simp]:
  "files (snd (is_kubeconfig_valid e p w)) = files w"
  "dirs (snd (is_kubeconfig_valid e p w)) = dirs w"
  "info (snd (is_kubeconfig_valid e p w)) = info w"
  "filter retry_event (trace (snd (is_kubeconfig_valid e p w))) = filter retry_event (trace w)"
  by (simp_all add: is_valid_snd)

lemma is_valid_lookup [simp]: "lookup (snd (is_kubeconfig_valid e p w)) q = lookup w q"
  by (simp add: lookup_def)

lemma is_valid_path_exists [simp]: "path_exists (snd (is_kubeconfig_valid e p w)) q = path_exists w q"
  by (simp add: path_exists_def)

lemma ensure_directory_fields [simp]:
  "files (snd (ensure_directory_exists e p w)) = files w"
  "info (snd (ensure_directory_exists e p w)) = info w"
  "trace (snd (ensure_directory_exists e p w)) = trace w"
  "calls (snd (ensure_directory_exists e p w)) = calls w"
  "clock (snd (ensure_directory_exists e p w)) = clock w"
  "ticks (snd (ensure_directory_exists e p w)) = Suc (ticks w)"
  by (simp_all add: ensure_directory_exists_def mkdir_def tick_def split: prod.splits sum.splits)

lemma ensure_directory_fails_iff:
  "\<not> fst (ensure_directory_exists e p w) \<longleftrightarrow> faults e (ticks w) \<or> lookup w (parent p) \<noteq> None"
  by (auto simp: ensure_directory_exists_def mkdir_def fault_def split: prod.splits sum.splits if_splits)

lemma ensure_directory_creates:
  "fst (ensure_directory_exists e p w) \<Longrightarrow> map_of (dirs w) (parent p) = None \<Longrightarrow>
   map_of (dirs (snd (ensure_directory_exists e p w))) (parent p) = Some 448"
  by (auto simp: ensure_directory_exists_def mkdir_def tick_def map_add_def
           split: prod.splits sum.splits if_splits)

lemma create_gke_fast:
  "fst (is_kubeconfig_valid e (kubeconfig_gke_path e) w) \<Longrightarrow>
   create_gke_kubeconfig e False w = (Inr True, snd (is_kubeconfig_valid e (kubeconfig_gke_path e) w))"
  by (cases "is_kubeconfig_valid e (kubeconfig_gke_path e) w")
     (simp add: create_gke_kubeconfig_def Let_def)

lemma create_hosted_fast:
  "fst (is_kubeconfig_valid e (kubeconfig_hosted_path e) w) \<Longrightarrow>
   create_hosted_kubeconfig e False w = (Inr True, snd (is_kubeconfig_valid e (kubeconfig_hosted_path e) w))"
  by (cases "is_kubeconfig_valid e (kubeconfig_hosted_path e) w")
     (simp add: create_hosted_kubeconfig_def Let_def)

text \<open>
  C3. When \<open>force_recreate\<close> is off and the file at the target path is valid
  (structure and probe), \<open>create_gke_kubeconfig\<close> and \<open>create_hosted_kubeconfig\<close> return
  \<open>True\<close> in the world the validity check left: the files (names, bytes, modes) and the
  directories are those of the start, so no backup exists that did not before, and the
  log has no new attempt, acquisition command, sleep or recovery.
\<close>

theorem fast_path_returns_unchanged:
  fixes e :: env and w :: world
  defines "g \<equiv> create_gke_kubeconfig e False w"
  defines "h \<equiv> create_hosted_kubeconfig e False w"
  shows "(fst (is_kubeconfig_valid e (kubeconfig_gke_path e) w) \<longrightarrow>
            fst g = Inr True \<and> files (snd g) = files w \<and> dirs (snd g) = dirs w \<and> info (snd g) = info w
            \<and> filter retry_event (trace (snd g)) = filter retry_event (trace w)
            \<and> snd g = snd (is_kubeconfig_valid e (kubeconfig_gke_path e) w))
       \<and> (fst (is_kubeconfig_valid e (kubeconfig_hosted_path e) w) \<longrightarrow>
            fst h = Inr True \<and> files (snd h) = files w \<and> dirs (snd h) = dirs w \<and> info (snd h) = info w
            \<and> filter retry_event (trace (snd h)) = filter retry_event (trace w)
            \<and> snd h = snd (is_kubeconfig_valid e (kubeconfig_hosted_path e) w))"
proof (intro conjI impI)
  assume v: "fst (is_kubeconfig_valid e (kubeconfig_gke_path e) w)"
  have eq: "g = (Inr True, snd (is_kubeconfig_valid e (kubeconfig_gke_path e) w))"
    unfolding g_def using v by (rule create_gke_fast)
  show "fst g = Inr True" "files (snd g) = files w" "dirs (snd g) = dirs w" "info (snd g) = info w"
       "filter retry_event (trace (snd g)) = filter retry_event (trace w)"
       "snd g = snd (is_kubeconfig_valid e (kubeconfig_gke_path e) w)"
    by (simp_all add: eq)
next
  assume v: "fst (is_kubeconfig_valid e (kubeconfig_hosted_path e) w)"
  have eq: "h = (Inr True, snd (is_kubeconfig_valid e (kubeconfig_hosted_path e) w))"
    unfolding h_def using v by (rule create_hosted_fast)
  show "fst h = Inr True" "files (snd h) = files w" "dirs (snd h) = dirs w" "info (snd h) = info w"
       "filter retry_event (trace (snd h)) = filter retry_event (trace w)"
       "snd h = snd (is_kubeconfig_valid e (kubeconfig_hosted_path e) w)"
    by (simp_all add: eq)
qed


lemmas fixture_defs = env0_def world_of_def toy_yaml_def good_file_def succeed_def refuse_def

theorem fast_path_returns_unchanged_witness:
  "fst (is_kubeconfig_valid env0 (kubeconfig_gke_path env0)
          (world_of [(''/tmp/kubeconfig-gke'', good_file), (''/tmp/kubeconfig-hosted'', good_file)]))
   \<and> fst (create_gke_kubeconfig env0 False
          (world_of [(''/tmp/kubeconfig-gke'', good_file), (''/tmp/kubeconfig-hosted'', good_file)])) = Inr True
   \<and> files (snd (create_gke_kubeconfig env0 False
          (world_of [(''/tmp/kubeconfig-gke'', good_file), (''/tmp/kubeconfig-hosted'', good_file)])))
       = [(''/tmp/kubeconfig-gke'', good_file), (''/tmp/kubeconfig-hosted'', good_file)]
   \<and> fst (is_kubeconfig_valid env0 (kubeconfig_hosted_path env0)
          (world_of [(''/tmp/kubeconfig-gke'', good_file), (''/tmp/kubeconfig-hosted'', good_file)]))
   \<and> fst (create_hosted_kubeconfig env0 False
          (world_of [(''/tmp/kubeconfig-gke'', good_file), (''/tmp/kubeconfig-hosted'', good_file)])) = Inr True
   \<and> files (snd (create_hosted_kubeconfig env0 False
          (world_of [(''/tmp/kubeconfig-gke'', good_file), (''/tmp/kubeconfig-hosted'', good_file)])))
       = [(''/tmp/kubeconfig-gke'', good_file), (''/tmp/kubeconfig-hosted'', good_file)]"
proof -
  let ?w = "world_of [(''/tmp/kubeconfig-gke'', good_file), (''/tmp/kubeconfig-hosted'', good_file)]"
  have g: "fst (is_kubeconfig_valid env0 (kubeconfig_gke_path env0) ?w)"
    by (simp add: is_valid_iff validate_iff load_document_eq connectivity_iff lookup_def
          path_exists_def required_keys_def fixture_defs)
  have h: "fst (is_kubeconfig_valid env0 (kubeconfig_hosted_path env0) ?w)"
    by (simp add: is_valid_iff validate_iff load_document_eq connectivity_iff lookup_def
          path_exists_def required_keys_def fixture_defs)
  have f: "files ?w = [(''/tmp/kubeconfig-gke'', good_file), (''/tmp/kubeconfig-hosted'', good_file)]"
    by (simp add: world_of_def)
  show ?thesis
    using fast_path_returns_unchanged [of env0 ?w] g h f by simp
qed

text \<open>
  C8. For both roles: when the call gets past the fast path and creating the parent
  directory fails, the call returns \<open>False\<close> in the world \<open>_ensure_directory_exists\<close>
  left: the files are those of the start and the log has no attempt, no acquisition
  command, no sleep and no recovery. The creation fails exactly when \<open>mkdir\<close> raises;
  when it succeeds on a missing directory, the directory has mode \<open>0o700\<close> (448).
\<close>

theorem directory_failure_is_fatal:
  fixes e :: env and force_recreate :: bool and w :: world
  defines "pg \<equiv> kubeconfig_gke_path e"
  defines "ph \<equiv> kubeconfig_hosted_path e"
  defines "wg \<equiv> (if force_recreate then w else snd (is_kubeconfig_valid e pg w))"
  defines "wh \<equiv> (if force_recreate then w else snd (is_kubeconfig_valid e ph w))"
  defines "g \<equiv> create_gke_kubeconfig e force_recreate w"
  defines "h \<equiv> create_hosted_kubeconfig e force_recreate w"
  shows "((force_recreate \<or> \<not> fst (is_kubeconfig_valid e pg w))
            \<and> \<not> fst (ensure_directory_exists e pg wg) \<longrightarrow>
            fst g = Inr False \<and> files (snd g) = files w \<and> info (snd g) = info w
            \<and> filter retry_event (trace (snd g)) = filter retry_event (trace w)
            \<and> snd g = snd (ensure_directory_exists e pg wg))
       \<and> ((force_recreate \<or> \<not> fst (is_kubeconfig_valid e ph w))
            \<and> \<not> fst (ensure_directory_exists e ph wh) \<longrightarrow>
            fst h = Inr False \<and> files (snd h) = files w \<and> info (snd h) = info w
            \<and> filter retry_event (trace (snd h)) = filter retry_event (trace w)
            \<and> snd h = snd (ensure_directory_exists e ph wh))
       \<and> (\<not> fst (ensure_directory_exists e p v) \<longleftrightarrow>
            faults e (ticks v) \<or> lookup v (parent p) \<noteq> None)
       \<and> (fst (ensure_directory_exists e p v) \<and> map_of (dirs v) (parent p) = None \<longrightarrow>
            map_of (dirs (snd (ensure_directory_exists e p v))) (parent p) = Some 448)"
proof -
  have gke: "fst g = Inr False \<and> files (snd g) = files w \<and> info (snd g) = info w
            \<and> filter retry_event (trace (snd g)) = filter retry_event (trace w)
            \<and> snd g = snd (ensure_directory_exists e pg wg)"
    if slow: "force_recreate \<or> \<not> fst (is_kubeconfig_valid e pg w)"
      and nodir: "\<not> fst (ensure_directory_exists e pg wg)"
  proof -
    have eq: "g = (Inr False, snd (ensure_directory_exists e pg wg))"
      using slow nodir unfolding g_def wg_def pg_def create_gke_kubeconfig_def Let_def
      by (auto split: prod.splits bool.splits)
    have "files wg = files w" "info wg = info w"
         "filter retry_event (trace wg) = filter retry_event (trace w)"
      by (simp_all add: wg_def)
    then show ?thesis by (simp add: eq)
  qed
  have hosted: "fst h = Inr False \<and> files (snd h) = files w \<and> info (snd h) = info w
            \<and> filter retry_event (trace (snd h)) = filter retry_event (trace w)
            \<and> snd h = snd (ensure_directory_exists e ph wh)"
    if slow: "force_recreate \<or> \<not> fst (is_kubeconfig_valid e ph w)"
      and nodir: "\<not> fst (ensure_directory_exists e ph wh)"
  proof -
    have eq: "h = (Inr False, snd (ensure_directory_exists e ph wh))"
      using slow nodir unfolding h_def wh_def ph_def create_hosted_kubeconfig_def Let_def
      by (auto split: prod.splits bool.splits)
    have "files wh = files w" "info wh = info w"
         "filter retry_event (trace wh) = filter retry_event (trace w)"
      by (simp_all add: wh_def)
    then show ?thesis by (simp add: eq)
  qed
  from gke hosted ensure_directory_fails_iff [of e p v] ensure_directory_creates [of e p v]
  show ?thesis by blast
qed

theorem directory_failure_is_fatal_witness:
  "\<not> fst (ensure_directory_exists (env0\<lparr>faults := (\<lambda>n. n = 0)\<rparr>) ''/tmp/kubeconfig-gke''
            (world_of [(''/tmp/kubeconfig-gke'', good_file)]))
   \<and> fst (create_gke_kubeconfig (env0\<lparr>faults := (\<lambda>n. n = 0)\<rparr>) True
            (world_of [(''/tmp/kubeconfig-gke'', good_file)])) = Inr False
   \<and> files (snd (create_gke_kubeconfig (env0\<lparr>faults := (\<lambda>n. n = 0)\<rparr>) True
            (world_of [(''/tmp/kubeconfig-gke'', good_file)])))
       = [(''/tmp/kubeconfig-gke'', good_file)]
   \<and> fst (create_hosted_kubeconfig (env0\<lparr>faults := (\<lambda>n. n = 0)\<rparr>) True
            (world_of [(''/tmp/kubeconfig-gke'', good_file)])) = Inr False
   \<and> filter retry_event (trace (snd (create_hosted_kubeconfig (env0\<lparr>faults := (\<lambda>n. n = 0)\<rparr>) True
            (world_of [(''/tmp/kubeconfig-gke'', good_file)])))) = []"
proof -
  let ?e = "env0\<lparr>faults := (\<lambda>n. n = 0)\<rparr>"
  let ?w = "world_of [(''/tmp/kubeconfig-gke'', good_file)]"
  have pg: "kubeconfig_gke_path ?e = ''/tmp/kubeconfig-gke''" by (simp add: env0_def)
  have d1: "\<not> fst (ensure_directory_exists ?e ''/tmp/kubeconfig-gke'' ?w)"
    by (simp add: ensure_directory_fails_iff world_of_def)
  have d2: "\<not> fst (ensure_directory_exists ?e (kubeconfig_hosted_path ?e) ?w)"
    by (simp add: ensure_directory_fails_iff world_of_def)
  have f: "files ?w = [(''/tmp/kubeconfig-gke'', good_file)]" "trace ?w = []"
    by (simp_all add: world_of_def)
  show ?thesis
    using directory_failure_is_fatal [of True ?e ?w] d1 d2 f pg by simp
qed

subsection \<open>Bounded retries\<close>

lemma quiet_refl [simp]: "quiet w w"
  by (simp add: quiet_def)

lemma quiet_trans: "quiet w w1 \<Longrightarrow> quiet w1 w2 \<Longrightarrow> quiet w w2"
  by (simp add: quiet_def)

lemma quiet_tick [simp]: "quiet w (tick w)"
  by (simp add: quiet_def tick_def)

lemma quiet_prims [simp]:
  "quiet w (snd (os_stat e p w))"
  "quiet w (snd (os_chmod e p m w))"
  "quiet w (snd (os_rename e p q w))"
  "quiet w (snd (os_unlink e p w))"
  "quiet w (snd (open_r e p w))"
  "quiet w (snd (f_read e p w))"
  "quiet w (snd (open_w e p w))"
  "quiet w (snd (f_write e p s w))"
  by (simp_all add: quiet_def os_stat_def os_chmod_def os_rename_def os_unlink_def open_r_def
        f_read_def open_w_def f_write_def tick_def Let_def split: option.splits)

lemmas prim_defs = os_stat_def os_chmod_def os_rename_def os_unlink_def open_r_def
  f_read_def open_w_def f_write_def

lemma quiet_create_backup_body: "quiet w (snd (create_backup_body e p w))"
  unfolding create_backup_body_def Let_def quiet_def
  by (simp add: prim_defs tick_def Let_def split: option.splits)

lemma quiet_fields:
  assumes "quiet w w'"
  shows "trace w' = trace w" "calls w' = calls w" "clock w' = clock w" "info w' = info w"
        "dirs w' = dirs w"
  using assms by (simp_all add: quiet_def)

lemma create_backup_snd: "snd (create_backup e p w) = snd (create_backup_body e p w)"
  by (simp add: create_backup_def split: prod.splits sum.splits)

lemma quiet_create_backup: "quiet w (snd (create_backup e p w))"
  by (simp add: create_backup_snd quiet_create_backup_body)

lemmas create_backup_fields [simp] = quiet_fields [OF quiet_create_backup]

lemma run_trace:
  "trace (snd (run e cmd kc co w)) = (if runner_dry_run e then trace w else trace w @ [Ran cmd kc])"
  by (simp add: run_def subprocess_effect_def Let_def split: proc.splits command.splits option.splits)

lemma run_success_iff:
  "fst (fst (run e cmd kc co w)) \<longleftrightarrow>
     runner_dry_run e \<or> (\<exists>out err. outcome (subprocess_run e (calls w) cmd kc) = Exited 0 out err)"
  by (auto simp: run_def Let_def split: proc.splits)

lemma os_rename_trace [simp]: "trace (snd (os_rename e p q w)) = trace w"
  using quiet_prims(3) [of w e p q] by (simp add: quiet_def)

lemma try_restore_snd:
  "snd (try_restore e p b w) =
     (if fst (is_kubeconfig_valid e b w)
      then snd (os_rename e b p (snd (is_kubeconfig_valid e b w)))
      else snd (is_kubeconfig_valid e b w))"
  by (auto simp: try_restore_def split: prod.splits bool.splits sum.splits)

lemma try_restore_trace [simp]:
  "filter retry_event (trace (snd (try_restore e p b w))) = filter retry_event (trace w)"
  by (simp add: try_restore_snd)

lemma try_backups_trace:
  "filter retry_event (trace (snd (try_backups e p bs w))) = filter retry_event (trace w)"
proof (induction bs arbitrary: w)
  case Nil
  show ?case by simp
next
  case (Cons b bs)
  obtain ok w1 where v: "try_restore e p b w = (ok, w1)"
    by (cases "try_restore e p b w")
  have t1: "filter retry_event (trace w1) = filter retry_event (trace w)"
    using try_restore_trace [of e p b w] v by simp
  show ?case
    using v t1 Cons.IH [of w1] by (cases ok) simp_all
qed

lemma same_but_ticks_trans:
  "same_but_ticks a b \<Longrightarrow> same_but_ticks b c \<Longrightarrow> same_but_ticks a c"
  unfolding same_but_ticks_def by (metis world.surjective world.update_convs(4))

lemma same_but_ticks_tick [simp]: "same_but_ticks w (tick w)"
  by (simp add: same_but_ticks_def tick_def)

lemma os_stat_frame: "same_but_ticks w (snd (os_stat e x w))"
  by (simp add: os_stat_def split: option.splits)

lemma stat_keys_frame: "same_but_ticks w (snd (stat_keys e xs w))"
proof (induction xs arbitrary: w)
  case Nil
  show ?case by (simp add: same_but_ticks_def)
next
  case (Cons x xs)
  obtain r w1 where s: "os_stat e x w = (r, w1)"
    by (metis prod.exhaust)
  have f1: "same_but_ticks w w1"
    using os_stat_frame [of w e x] s by simp
  have f2: "same_but_ticks w (snd (stat_keys e xs w1))"
    using f1 Cons.IH [of w1] by (rule same_but_ticks_trans)
  show ?case
    using s f1 f2 by (cases r; cases "stat_keys e xs w1") (auto split: sum.splits)
qed

lemmas stat_keys_fields [simp] = same_but_ticks_fields [OF stat_keys_frame]

lemma stat_keys_lookup [simp]: "lookup (snd (stat_keys e xs w)) x = lookup w x"
  by (simp add: lookup_def)

text \<open>The sort raises exactly when one of the \<open>os.stat\<close> calls does.\<close>

lemma stat_keys_result:
  "\<forall>x \<in> set xs. lookup w x \<noteq> None \<Longrightarrow>
   fst (stat_keys e xs w) =
     (if \<exists>i<length xs. faults e (ticks w + i) then Inl OSError
      else Inr (map (st_mtime w) xs))"
proof (induction xs arbitrary: w)
  case Nil
  show ?case by simp
next
  case (Cons x xs)
  from Cons.prems obtain f where f: "lookup w x = Some f" by auto
  show ?case
  proof (cases "faults e (ticks w)")
    case True
    then have "\<exists>i<length (x # xs). faults e (ticks w + i)"
      by (intro exI [of _ 0]) simp
    with True f show ?thesis
      by (simp add: os_stat_def fault_def)
  next
    case False
    have st: "os_stat e x w = (Inr f, tick w)"
      using f False by (simp add: os_stat_def fault_def)
    have ex: "\<forall>y \<in> set xs. lookup (tick w) y \<noteq> None"
      using Cons.prems by (simp add: lookup_def tick_def)
    have ih: "fst (stat_keys e xs (tick w)) =
                (if \<exists>i<length xs. faults e (Suc (ticks w) + i) then Inl OSError
                 else Inr (map (st_mtime w) xs))"
      using Cons.IH [OF ex] by (simp add: tick_def st_mtime_def lookup_def)
    have shift: "(\<exists>i<length (x # xs). faults e (ticks w + i))
                  \<longleftrightarrow> (\<exists>i<length xs. faults e (Suc (ticks w) + i))"
    proof
      assume "\<exists>i<length (x # xs). faults e (ticks w + i)"
      then obtain i where i: "i < Suc (length xs)" "faults e (ticks w + i)" by auto
      with False obtain k where "i = Suc k" by (cases i) auto
      with i show "\<exists>i<length xs. faults e (Suc (ticks w) + i)" by auto
    next
      assume "\<exists>i<length xs. faults e (Suc (ticks w) + i)"
      then obtain k where "k < length xs" "faults e (Suc (ticks w) + k)" by auto
      then show "\<exists>i<length (x # xs). faults e (ticks w + i)"
        by (intro exI [of _ "Suc k"]) simp
    qed
    show ?thesis
      unfolding shift using st ih f
      by (cases "stat_keys e xs (tick w)") (auto simp: st_mtime_def split: sum.splits)
  qed
qed

lemma stat_keys_ticks:
  "fst (stat_keys e xs w) = Inr keys \<Longrightarrow> ticks (snd (stat_keys e xs w)) = ticks w + length xs"
proof (induction xs arbitrary: w keys)
  case Nil
  show ?case by simp
next
  case (Cons x xs)
  obtain r w1 where s: "os_stat e x w = (r, w1)"
    by (metis prod.exhaust)
  have t1: "ticks w1 = Suc (ticks w)"
    using s by (auto simp: os_stat_def tick_def split: option.splits if_splits)
  obtain r2 w2 where s2: "stat_keys e xs w1 = (r2, w2)"
    by (metis prod.exhaust)
  from Cons.prems s s2 obtain ks where "r2 = Inr ks"
    by (cases r; cases r2) auto
  with Cons.IH [of w1 ks] s2 have "ticks w2 = ticks w1 + length xs" by simp
  with Cons.prems s s2 t1 show ?case
    by (cases r; cases r2) auto
qed

lemma glob_backups_exist: "\<forall>x \<in> set (glob_backups w p). lookup w x \<noteq> None"
  by (auto simp: glob_backups_def lookup_def map_of_eq_None_iff)

text \<open>\<open>_attempt_recovery\<close>, with the listing and the sort spelled out.\<close>

lemma attempt_recovery_unfold:
  "attempt_recovery e p w =
     (let w1 = tick (log (Recovery_started p) w);
          backup_files = glob_backups w p
      in if faults e (ticks w) then (Inl OSError, w1)
         else (case fst (stat_keys e backup_files w1) of
                 Inl err \<Rightarrow> (Inl err, snd (stat_keys e backup_files w1))
               | Inr keys \<Rightarrow>
                   returned (try_backups e p (sort_newest_first backup_files keys)
                               (snd (stat_keys e backup_files w1)))))"
  by (auto simp: attempt_recovery_def list_backups_def fault_def log_def glob_backups_def
        returned_def Let_def split: prod.splits sum.splits)

lemma recovery_raises_iff:
  "isl (fst (attempt_recovery e p w)) \<longleftrightarrow>
     faults e (ticks w) \<or> (\<exists>i<length (glob_backups w p). faults e (Suc (ticks w) + i))"
proof -
  let ?w1 = "tick (log (Recovery_started p) w)"
  have ex: "\<forall>x \<in> set (glob_backups w p). lookup ?w1 x \<noteq> None"
    using glob_backups_exist [of w p] by (simp add: lookup_def tick_def log_def)
  have t: "ticks ?w1 = Suc (ticks w)"
    by (simp add: tick_def log_def)
  show ?thesis
    unfolding attempt_recovery_unfold Let_def
    using stat_keys_result [OF ex, of e]
    by (auto simp: t returned_def split: sum.splits)
qed

lemma attempt_recovery_trace:
  "filter retry_event (trace (snd (attempt_recovery e p w)))
     = filter retry_event (trace w) @ [Recovery_started p]"
  unfolding attempt_recovery_unfold Let_def
  by (simp add: returned_def try_backups_trace tick_def log_def split: sum.splits)

lemma recovery_after_last_attempt_trace:
  "filter retry_event (trace (snd (recovery_after_last_attempt e p w)))
     = filter retry_event (trace w) @ [Recovery_started p] @
       (if isl (fst (attempt_recovery e p w)) then [Recovery_started p] else [])"
proof (cases "attempt_recovery e p w")
  case (Pair r w1)
  have t1: "filter retry_event (trace w1) = filter retry_event (trace w) @ [Recovery_started p]"
    using attempt_recovery_trace [of e p w] Pair by simp
  show ?thesis
    using Pair t1 attempt_recovery_trace [of e p w1]
    by (cases r) (simp_all add: recovery_after_last_attempt_def)
qed

lemma gke_attempts_exhausted:
  "gke_attempts e (Suc max_retries) v = attempt_recovery e (kubeconfig_gke_path e) v"
  by (subst gke_attempts.simps) simp

lemma hosted_attempts_exhausted:
  "hosted_attempts e (Suc max_retries) v = attempt_recovery e (kubeconfig_hosted_path e) v"
  by (subst hosted_attempts.simps) simp

lemma gke_attempts_4: "gke_attempts e 4 v = attempt_recovery e (kubeconfig_gke_path e) v"
  by (subst gke_attempts.simps) (simp add: max_retries_def)

lemma hosted_attempts_4:
  "hosted_attempts e 4 v = attempt_recovery e (kubeconfig_hosted_path e) v"
  by (subst hosted_attempts.simps) (simp add: max_retries_def)

lemma gke_attempt_failed:
  assumes "\<not> gke_acquired e (log (Attempt n) w)" and "n \<le> 3"
  shows "gke_attempts e n w =
           (let w1 = snd (run e Get_credentials (kubeconfig_gke_path e) False (log (Attempt n) w))
            in if n < 3 then gke_attempts e (Suc n) (time_sleep 5 w1)
               else recovery_after_last_attempt e (kubeconfig_gke_path e) w1)"
proof (cases "n < 3")
  case True
  with assms show ?thesis
    by (subst gke_attempts.simps)
       (auto simp: gke_acquired_def max_retries_def retry_delay_def Let_def split: prod.splits)
next
  case False
  with assms have n: "n = max_retries" by (simp add: max_retries_def)
  show ?thesis
    using assms False
    by (subst gke_attempts.simps)
       (auto simp: n gke_attempts_4 recovery_after_last_attempt_def gke_acquired_def
          max_retries_def Let_def split: prod.splits sum.splits)
qed

lemma hosted_attempt_failed:
  assumes "\<not> hosted_acquired e (log (Attempt n) w)" and "n \<le> 3"
  shows "hosted_attempts e n w =
           (let w1 = snd (run e Get_secret (kubeconfig_gke_path e) True (log (Attempt n) w))
            in if n < 3 then hosted_attempts e (Suc n) (time_sleep 5 w1)
               else recovery_after_last_attempt e (kubeconfig_hosted_path e) w1)"
proof (cases "n < 3")
  case True
  with assms show ?thesis
    by (subst hosted_attempts.simps)
       (auto simp: hosted_acquired_def max_retries_def retry_delay_def Let_def
             split: prod.splits sum.splits)
next
  case False
  with assms have n: "n = max_retries" by (simp add: max_retries_def)
  show ?thesis
    using assms False
    by (subst hosted_attempts.simps)
       (auto simp: n hosted_attempts_4 recovery_after_last_attempt_def
          hosted_acquired_def max_retries_def Let_def split: prod.splits sum.splits)
qed

lemma gke_attempts_all_fail:
  assumes "\<forall>v. \<not> gke_acquired e v"
  shows "gke_attempts e 1 w =
           recovery_after_last_attempt e (kubeconfig_gke_path e)
             (snd (run e Get_credentials (kubeconfig_gke_path e) False (log (Attempt 3)
               (time_sleep 5
             (snd (run e Get_credentials (kubeconfig_gke_path e) False (log (Attempt 2)
               (time_sleep 5
             (snd (run e Get_credentials (kubeconfig_gke_path e) False (log (Attempt 1) w)))))))))))"
proof -
  let ?go = "\<lambda>n v. snd (run e Get_credentials (kubeconfig_gke_path e) False (log (Attempt n) v))"
  have "gke_attempts e 1 w = gke_attempts e 2 (time_sleep 5 (?go 1 w))"
    using gke_attempt_failed [of e 1 w] assms by (simp add: Let_def eval_nat_numeral)
  also have "\<dots> = gke_attempts e 3 (time_sleep 5 (?go 2 (time_sleep 5 (?go 1 w))))"
    using gke_attempt_failed [of e 2 "time_sleep 5 (?go 1 w)"] assms
    by (simp add: Let_def eval_nat_numeral)
  also have "\<dots> = recovery_after_last_attempt e (kubeconfig_gke_path e)
                      (?go 3 (time_sleep 5 (?go 2 (time_sleep 5 (?go 1 w)))))"
    using gke_attempt_failed [of e 3 "time_sleep 5 (?go 2 (time_sleep 5 (?go 1 w)))"] assms
    by (simp add: Let_def eval_nat_numeral)
  finally show ?thesis .
qed

lemma hosted_attempts_all_fail:
  assumes "\<forall>v. \<not> hosted_acquired e v"
  shows "hosted_attempts e 1 w =
           recovery_after_last_attempt e (kubeconfig_hosted_path e)
             (snd (run e Get_secret (kubeconfig_gke_path e) True (log (Attempt 3)
               (time_sleep 5
             (snd (run e Get_secret (kubeconfig_gke_path e) True (log (Attempt 2)
               (time_sleep 5
             (snd (run e Get_secret (kubeconfig_gke_path e) True (log (Attempt 1) w)))))))))))"
proof -
  let ?go = "\<lambda>n v. snd (run e Get_secret (kubeconfig_gke_path e) True (log (Attempt n) v))"
  have "hosted_attempts e 1 w = hosted_attempts e 2 (time_sleep 5 (?go 1 w))"
    using hosted_attempt_failed [of e 1 w] assms by (simp add: Let_def eval_nat_numeral)
  also have "\<dots> = hosted_attempts e 3 (time_sleep 5 (?go 2 (time_sleep 5 (?go 1 w))))"
    using hosted_attempt_failed [of e 2 "time_sleep 5 (?go 1 w)"] assms
    by (simp add: Let_def eval_nat_numeral)
  also have "\<dots> = recovery_after_last_attempt e (kubeconfig_hosted_path e)
                      (?go 3 (time_sleep 5 (?go 2 (time_sleep 5 (?go 1 w)))))"
    using hosted_attempt_failed [of e 3 "time_sleep 5 (?go 2 (time_sleep 5 (?go 1 w)))"] assms
    by (simp add: Let_def eval_nat_numeral)
  finally show ?thesis .
qed

lemma create_gke_unfold:
  "create_gke_kubeconfig e force w =
     (let p = kubeconfig_gke_path e in
      if \<not> force \<and> fst (is_kubeconfig_valid e p w) then (Inr True, after_fast_path e p force w)
      else if \<not> fst (ensure_directory_exists e p (after_fast_path e p force w))
      then (Inr False, snd (ensure_directory_exists e p (after_fast_path e p force w)))
      else gke_attempts e 1 (loop_entry e p force w))"
  by (auto simp: create_gke_kubeconfig_def after_fast_path_def loop_entry_def Let_def
           split: prod.splits bool.splits)

lemma create_hosted_unfold:
  "create_hosted_kubeconfig e force w =
     (let p = kubeconfig_hosted_path e in
      if \<not> force \<and> fst (is_kubeconfig_valid e p w) then (Inr True, after_fast_path e p force w)
      else if \<not> fst (ensure_directory_exists e p (after_fast_path e p force w))
      then (Inr False, snd (ensure_directory_exists e p (after_fast_path e p force w)))
      else hosted_attempts e 1 (loop_entry e p force w))"
  by (auto simp: create_hosted_kubeconfig_def after_fast_path_def loop_entry_def Let_def
           split: prod.splits bool.splits)

lemma after_fast_path_fields [simp]:
  "files (after_fast_path e p force w) = files w"
  "dirs (after_fast_path e p force w) = dirs w"
  "info (after_fast_path e p force w) = info w"
  "filter retry_event (trace (after_fast_path e p force w)) = filter retry_event (trace w)"
  by (simp_all add: after_fast_path_def)

lemma loop_entry_trace [simp]:
  "filter retry_event (trace (loop_entry e p force w)) = filter retry_event (trace w)"
  by (simp add: loop_entry_def Let_def)

lemma gke_not_dry: "\<forall>v. \<not> gke_acquired e v \<Longrightarrow> \<not> runner_dry_run e"
  by (auto simp: gke_acquired_def run_def)


text \<open>
  C1. For both roles: when the acquisition procedure fails in every world it is started
  in, the retry loop ends in \<open>_attempt_recovery\<close>, and between the start of the loop and
  the start of recovery the log has exactly attempt 1, its command, a sleep of 5,
  attempt 2, its command, a sleep of 5, attempt 3 and its command (in dry-run mode the
  runner executes no command). No fourth attempt follows: after the third the log has the
  start of recovery and, when that recovery raised, the start of the second recovery, and
  nothing else. The whole call shows the same events when it reaches the loop, and none
  when it returns before. \<open>max_retries\<close> is 3 and \<open>retry_delay\<close> is 5.
\<close>

theorem bounded_retries:
  fixes e :: env and force_recreate :: bool and w :: world
  defines "pg \<equiv> kubeconfig_gke_path e"
  defines "ph \<equiv> kubeconfig_hosted_path e"
  defines "gke_log \<equiv>
    [Attempt 1, Ran Get_credentials pg, Slept 5, Attempt 2, Ran Get_credentials pg, Slept 5,
     Attempt 3, Ran Get_credentials pg]"
  defines "secret_run \<equiv> (if runner_dry_run e then [] else [Ran Get_secret pg])"
  defines "hosted_log \<equiv>
    [Attempt 1] @ secret_run @ [Slept 5, Attempt 2] @ secret_run @ [Slept 5, Attempt 3] @ secret_run"
  defines "gke_run \<equiv> \<lambda>n v. snd (run e Get_credentials pg False (log (Attempt n) v))"
  defines "hosted_run \<equiv> \<lambda>n v. snd (run e Get_secret pg True (log (Attempt n) v))"
  defines "gke_end \<equiv> \<lambda>u. gke_run 3 (time_sleep 5 (gke_run 2 (time_sleep 5 (gke_run 1 u))))"
  defines "hosted_end \<equiv>
    \<lambda>u. hosted_run 3 (time_sleep 5 (hosted_run 2 (time_sleep 5 (hosted_run 1 u))))"
  defines "again \<equiv>
    \<lambda>p v. if isl (fst (attempt_recovery e p v)) then [Recovery_started p] else []"
  shows
    "((\<forall>v. \<not> gke_acquired e v) \<longrightarrow>
        gke_attempts e 1 w = recovery_after_last_attempt e pg (gke_end w)
      \<and> (\<not> isl (fst (attempt_recovery e pg (gke_end w))) \<longrightarrow>
           gke_attempts e 1 w = attempt_recovery e pg (gke_end w))
      \<and> filter retry_event (trace (gke_end w)) = filter retry_event (trace w) @ gke_log
      \<and> filter retry_event (trace (snd (gke_attempts e 1 w)))
          = filter retry_event (trace w) @ gke_log @ [Recovery_started pg] @ again pg (gke_end w)
      \<and> filter retry_event (trace (snd (create_gke_kubeconfig e force_recreate w)))
          = filter retry_event (trace w) @
            (if reaches_loop e pg force_recreate w
             then gke_log @ [Recovery_started pg]
                  @ again pg (gke_end (loop_entry e pg force_recreate w))
             else []))
   \<and> ((\<forall>v. \<not> hosted_acquired e v) \<longrightarrow>
        hosted_attempts e 1 w = recovery_after_last_attempt e ph (hosted_end w)
      \<and> (\<not> isl (fst (attempt_recovery e ph (hosted_end w))) \<longrightarrow>
           hosted_attempts e 1 w = attempt_recovery e ph (hosted_end w))
      \<and> filter retry_event (trace (hosted_end w)) = filter retry_event (trace w) @ hosted_log
      \<and> filter retry_event (trace (snd (hosted_attempts e 1 w)))
          = filter retry_event (trace w) @ hosted_log @ [Recovery_started ph]
            @ again ph (hosted_end w)
      \<and> filter retry_event (trace (snd (create_hosted_kubeconfig e force_recreate w)))
          = filter retry_event (trace w) @
            (if reaches_loop e ph force_recreate w
             then hosted_log @ [Recovery_started ph]
                  @ again ph (hosted_end (loop_entry e ph force_recreate w))
             else []))
   \<and> max_retries = 3 \<and> retry_delay = 5"
proof -
  have once: "recovery_after_last_attempt e p v = attempt_recovery e p v"
    if "\<not> isl (fst (attempt_recovery e p v))" for p v
    using that
    by (cases "attempt_recovery e p v")
       (auto simp: recovery_after_last_attempt_def split: sum.splits)
  have gke: "gke_attempts e 1 u = recovery_after_last_attempt e pg (gke_end u)
      \<and> filter retry_event (trace (gke_end u)) = filter retry_event (trace u) @ gke_log
      \<and> filter retry_event (trace (snd (gke_attempts e 1 u)))
          = filter retry_event (trace u) @ gke_log @ [Recovery_started pg] @ again pg (gke_end u)"
    if fails: "\<forall>v. \<not> gke_acquired e v" for u
  proof -
    have eq: "gke_attempts e 1 u = recovery_after_last_attempt e pg (gke_end u)"
      unfolding pg_def gke_end_def gke_run_def by (rule gke_attempts_all_fail [OF fails])
    have tr: "filter retry_event (trace (gke_end u)) = filter retry_event (trace u) @ gke_log"
      using gke_not_dry [OF fails]
      by (simp add: gke_end_def gke_run_def run_trace log_def time_sleep_def gke_log_def)
    from eq tr show ?thesis
      by (simp add: recovery_after_last_attempt_trace again_def)
  qed
  have hosted: "hosted_attempts e 1 u = recovery_after_last_attempt e ph (hosted_end u)
      \<and> filter retry_event (trace (hosted_end u)) = filter retry_event (trace u) @ hosted_log
      \<and> filter retry_event (trace (snd (hosted_attempts e 1 u)))
          = filter retry_event (trace u) @ hosted_log @ [Recovery_started ph]
            @ again ph (hosted_end u)"
    if fails: "\<forall>v. \<not> hosted_acquired e v" for u
  proof -
    have eq: "hosted_attempts e 1 u = recovery_after_last_attempt e ph (hosted_end u)"
      unfolding pg_def ph_def hosted_end_def hosted_run_def
      by (rule hosted_attempts_all_fail [OF fails])
    have tr: "filter retry_event (trace (hosted_end u))
                = filter retry_event (trace u) @ hosted_log"
      by (simp add: hosted_end_def hosted_run_def run_trace log_def time_sleep_def
            hosted_log_def secret_run_def)
    from eq tr show ?thesis
      by (simp add: recovery_after_last_attempt_trace again_def)
  qed
  have gke_full: "filter retry_event (trace (snd (create_gke_kubeconfig e force_recreate w)))
          = filter retry_event (trace w) @
            (if reaches_loop e pg force_recreate w
             then gke_log @ [Recovery_started pg]
                  @ again pg (gke_end (loop_entry e pg force_recreate w))
             else [])"
    if fails: "\<forall>v. \<not> gke_acquired e v"
    using gke [OF fails, of "loop_entry e pg force_recreate w"]
    by (auto simp: create_gke_unfold reaches_loop_def Let_def pg_def)
  have hosted_full: "filter retry_event (trace (snd (create_hosted_kubeconfig e force_recreate w)))
          = filter retry_event (trace w) @
            (if reaches_loop e ph force_recreate w
             then hosted_log @ [Recovery_started ph]
                  @ again ph (hosted_end (loop_entry e ph force_recreate w))
             else [])"
    if fails: "\<forall>v. \<not> hosted_acquired e v"
    using hosted [OF fails, of "loop_entry e ph force_recreate w"]
    by (auto simp: create_hosted_unfold reaches_loop_def Let_def ph_def)
  have numbers: "max_retries = 3 \<and> retry_delay = 5"
    by (simp add: max_retries_def retry_delay_def)
  show ?thesis
  proof (intro conjI impI)
    assume fails: "\<forall>v. \<not> gke_acquired e v"
    show "gke_attempts e 1 w = recovery_after_last_attempt e pg (gke_end w)"
      using gke [OF fails, of w] by blast
    show "filter retry_event (trace (gke_end w)) = filter retry_event (trace w) @ gke_log"
      using gke [OF fails, of w] by blast
    show "filter retry_event (trace (snd (gke_attempts e 1 w)))
          = filter retry_event (trace w) @ gke_log @ [Recovery_started pg] @ again pg (gke_end w)"
      using gke [OF fails, of w] by blast
    show "filter retry_event (trace (snd (create_gke_kubeconfig e force_recreate w)))
          = filter retry_event (trace w) @
            (if reaches_loop e pg force_recreate w
             then gke_log @ [Recovery_started pg]
                  @ again pg (gke_end (loop_entry e pg force_recreate w))
             else [])"
      by (rule gke_full [OF fails])
    assume "\<not> isl (fst (attempt_recovery e pg (gke_end w)))"
    then show "gke_attempts e 1 w = attempt_recovery e pg (gke_end w)"
      using gke [OF fails, of w] once [of pg "gke_end w"] by metis
  next
    assume fails: "\<forall>v. \<not> hosted_acquired e v"
    show "hosted_attempts e 1 w = recovery_after_last_attempt e ph (hosted_end w)"
      using hosted [OF fails, of w] by blast
    show "filter retry_event (trace (hosted_end w)) = filter retry_event (trace w) @ hosted_log"
      using hosted [OF fails, of w] by blast
    show "filter retry_event (trace (snd (hosted_attempts e 1 w)))
          = filter retry_event (trace w) @ hosted_log @ [Recovery_started ph]
            @ again ph (hosted_end w)"
      using hosted [OF fails, of w] by blast
    show "filter retry_event (trace (snd (create_hosted_kubeconfig e force_recreate w)))
          = filter retry_event (trace w) @
            (if reaches_loop e ph force_recreate w
             then hosted_log @ [Recovery_started ph]
                  @ again ph (hosted_end (loop_entry e ph force_recreate w))
             else [])"
      by (rule hosted_full [OF fails])
    assume "\<not> isl (fst (attempt_recovery e ph (hosted_end w)))"
    then show "hosted_attempts e 1 w = attempt_recovery e ph (hosted_end w)"
      using hosted [OF fails, of w] once [of ph "hosted_end w"] by metis
  next
    show "max_retries = 3" using numbers by simp
    show "retry_delay = 5" using numbers by simp
  qed
qed

theorem bounded_retries_witness:
  "(\<forall>v. \<not> gke_acquired env_refusing v) \<and> (\<forall>v. \<not> hosted_acquired env_refusing v)
   \<and> filter retry_event (trace (snd (create_gke_kubeconfig env_refusing True (world_of []))))
      = [Attempt 1, Ran Get_credentials ''/tmp/kubeconfig-gke'', Slept 5,
         Attempt 2, Ran Get_credentials ''/tmp/kubeconfig-gke'', Slept 5,
         Attempt 3, Ran Get_credentials ''/tmp/kubeconfig-gke'',
         Recovery_started ''/tmp/kubeconfig-gke'']
   \<and> filter retry_event (trace (snd (create_hosted_kubeconfig env_refusing True (world_of []))))
      = [Attempt 1, Ran Get_secret ''/tmp/kubeconfig-gke'', Slept 5,
         Attempt 2, Ran Get_secret ''/tmp/kubeconfig-gke'', Slept 5,
         Attempt 3, Ran Get_secret ''/tmp/kubeconfig-gke'',
         Recovery_started ''/tmp/kubeconfig-hosted'']"
proof -
  have g: "\<forall>v. \<not> gke_acquired env_refusing v"
    by (simp add: gke_acquired_def run_def env_refusing_def env0_def refuse_def Let_def)
  have h: "\<forall>v. \<not> hosted_acquired env_refusing v"
    by (simp add: hosted_acquired_def run_def env_refusing_def env0_def refuse_def Let_def)
  have paths: "kubeconfig_gke_path env_refusing = ''/tmp/kubeconfig-gke''"
              "kubeconfig_hosted_path env_refusing = ''/tmp/kubeconfig-hosted''"
              "\<not> runner_dry_run env_refusing"
    by (simp_all add: env_refusing_def env0_def)
  have par: "parent ''/tmp/kubeconfig-gke'' = ''/tmp''" "parent ''/tmp/kubeconfig-hosted'' = ''/tmp''"
    by (simp_all add: parent_def)
  have r: "reaches_loop env_refusing ''/tmp/kubeconfig-gke'' True (world_of [])"
          "reaches_loop env_refusing ''/tmp/kubeconfig-hosted'' True (world_of [])"
    using ensure_directory_fails_iff [of env_refusing "''/tmp/kubeconfig-gke''" "world_of []"]
          ensure_directory_fails_iff [of env_refusing "''/tmp/kubeconfig-hosted''" "world_of []"]
    by (simp_all add: reaches_loop_def after_fast_path_def par lookup_def world_of_def
          env_refusing_def env0_def)
  have t: "trace (world_of []) = []" by (simp add: world_of_def)
  have calm: "\<not> isl (fst (attempt_recovery env_refusing p v))" for p v
    by (simp add: recovery_raises_iff env_refusing_def env0_def)
  show ?thesis
    using bounded_retries [where e = env_refusing and w = "world_of []" and force_recreate = True]
          g h r
    by (simp add: paths t calm)
qed
subsection \<open>Recovery from backups\<close>

lemma is_backup_name_iff:
  "is_backup_name p q \<longleftrightarrow> (\<exists>r. q = p @ ''.backup.'' @ r \<and> CHR ''/'' \<notin> set r)"
proof
  assume "is_backup_name p q"
  then obtain zs where q: "q = (p @ ''.backup.'') @ zs" and s: "CHR ''/'' \<notin> set (drop (length p + 8) q)"
    by (auto simp: is_backup_name_def prefix_def)
  from q have "drop (length p + 8) q = zs" by simp
  with q s show "\<exists>r. q = p @ ''.backup.'' @ r \<and> CHR ''/'' \<notin> set r" by auto
next
  assume "\<exists>r. q = p @ ''.backup.'' @ r \<and> CHR ''/'' \<notin> set r"
  then obtain r where q: "q = p @ ''.backup.'' @ r" and s: "CHR ''/'' \<notin> set r" by blast
  from q have "drop (length p + 8) q = r" by simp
  with q s show "is_backup_name p q" by (simp add: is_backup_name_def prefix_def)
qed

lemma backup_name_neq: "is_backup_name p q \<Longrightarrow> q \<noteq> p"
  by (auto simp: is_backup_name_iff)

lemma insort_key_map:
  "insort_key f (h x) (map h ys) = map h (insort_key (\<lambda>y. f (h y)) x ys)"
  by (induction ys) simp_all

lemma sort_key_map: "sort_key f (map h xs) = map h (sort_key (\<lambda>y. f (h y)) xs)"
  by (induction xs) (simp_all add: insort_key_map)

text \<open>With the keys the stats deliver, the sort is the stable sort on decreasing keys.\<close>

lemma sort_newest_first_eq:
  "sort_newest_first xs (map g xs) = sort_key (\<lambda>x. - g x) xs"
proof -
  have z: "zip xs (map g xs) = map (\<lambda>x. (x, g x)) xs"
    by (induction xs) simp_all
  show ?thesis
    unfolding sort_newest_first_def z sort_key_map
    by (simp add: comp_def)
qed

lemma set_candidates:
  "set (sort_newest_first (glob_backups w p) (map g (glob_backups w p)))
     = {q. lookup w q \<noteq> None \<and> is_backup_name p q}"
  by (auto simp: sort_newest_first_eq glob_backups_def lookup_def map_of_eq_None_iff)

lemma sorted_candidates:
  "sorted_wrt (\<lambda>a b. g b \<le> g a) (sort_newest_first qs (map g qs))"
proof -
  have "sorted (map (\<lambda>q. - g q) (sort_newest_first qs (map g qs)))"
    by (simp add: sort_newest_first_eq)
  then show ?thesis by (simp add: sorted_map)
qed

lemma os_rename_ok_iff:
  "(\<exists>u. fst (os_rename e src dst w) = Inr u) \<longleftrightarrow> lookup w src \<noteq> None \<and> \<not> faults e (ticks w)"
  by (auto simp: os_rename_def fault_def split: option.splits)

lemma os_rename_failed:
  "fst (os_rename e src dst w) = Inl x \<Longrightarrow> files (snd (os_rename e src dst w)) = files w"
  by (auto simp: os_rename_def tick_def split: option.splits if_splits)

lemma os_rename_done:
  "fst (os_rename e src dst w) = Inr u \<Longrightarrow>
   lookup (snd (os_rename e src dst w)) q =
     (if q = dst then lookup w src else if q = src then None else lookup w q)"
  by (auto simp: os_rename_def tick_def lookup_def update_conv' delete_conv'
           split: option.splits if_splits)

lemma is_valid_file: "fst (is_kubeconfig_valid e b w) \<Longrightarrow> lookup w b \<noteq> None"
  by (auto simp: is_valid_iff validate_iff load_document_eq split: option.splits)

lemma try_restore_iff:
  "fst (try_restore e p b w) \<longleftrightarrow>
     fst (is_kubeconfig_valid e b w) \<and> \<not> faults e (ticks (snd (is_kubeconfig_valid e b w)))"
proof -
  obtain ok w1 where v: "is_kubeconfig_valid e b w = (ok, w1)"
    by (cases "is_kubeconfig_valid e b w")
  obtain r w2 where rn: "os_rename e b p w1 = (r, w2)"
    by (cases "os_rename e b p w1")
  have lk: "ok \<Longrightarrow> lookup w1 b \<noteq> None"
    using is_valid_file [of e b w] is_valid_lookup [of e b w b] v by simp
  show ?thesis
    using v rn lk os_rename_ok_iff [of e b p w1]
    by (cases ok; cases r) (auto simp: try_restore_def)
qed

lemma try_restore_rejected:
  "\<not> fst (try_restore e p b w) \<Longrightarrow> files (snd (try_restore e p b w)) = files w"
proof -
  assume rej: "\<not> fst (try_restore e p b w)"
  obtain ok w1 where v: "is_kubeconfig_valid e b w = (ok, w1)"
    by (cases "is_kubeconfig_valid e b w")
  obtain r w2 where rn: "os_rename e b p w1 = (r, w2)"
    by (cases "os_rename e b p w1")
  have f1: "files w1 = files w"
    using is_valid_fields(1) [of e b w] v by simp
  show ?thesis
    using rej v rn f1 os_rename_failed [of e b p w1]
    by (cases ok; cases r) (auto simp: try_restore_def)
qed

lemma try_restore_restored:
  "fst (try_restore e p b w) \<Longrightarrow>
   lookup (snd (try_restore e p b w)) q =
     (if q = p then lookup w b else if q = b then None else lookup w q)"
proof -
  assume acc: "fst (try_restore e p b w)"
  obtain ok w1 where v: "is_kubeconfig_valid e b w = (ok, w1)"
    by (cases "is_kubeconfig_valid e b w")
  obtain r w2 where rn: "os_rename e b p w1 = (r, w2)"
    by (cases "os_rename e b p w1")
  have f1: "lookup w1 q' = lookup w q'" for q'
    using is_valid_lookup [of e b w q'] v by simp
  show ?thesis
    using acc v rn f1 os_rename_done [of e b p w1 _ q]
    by (cases ok; cases r) (auto simp: try_restore_def)
qed

lemma tried_before_0 [simp]: "tried_before e p bs w 0 = w"
  by (simp add: tried_before_def)

lemma tried_before_Suc [simp]:
  "tried_before e p (b # bs) w (Suc i) = tried_before e p bs (snd (try_restore e p b w)) i"
  by (simp add: tried_before_def)

lemma try_backups_first:
  "i < length bs \<Longrightarrow>
   \<forall>j<i. \<not> fst (try_restore e p (bs ! j) (tried_before e p bs w j)) \<Longrightarrow>
   fst (try_restore e p (bs ! i) (tried_before e p bs w i)) \<Longrightarrow>
   try_backups e p bs w = (True, snd (try_restore e p (bs ! i) (tried_before e p bs w i)))"
proof (induction bs arbitrary: w i)
  case Nil
  then show ?case by simp
next
  case (Cons b bs)
  show ?case
  proof (cases i)
    case 0
    with Cons.prems show ?thesis
      by (cases "try_restore e p b w") auto
  next
    case (Suc k)
    have rej: "\<not> fst (try_restore e p b w)"
      using Cons.prems(2) Suc by (auto dest: spec [of _ 0])
    have rest: "\<forall>j<k. \<not> fst (try_restore e p (bs ! j)
                      (tried_before e p bs (snd (try_restore e p b w)) j))"
      using Cons.prems(2) Suc by (auto dest: spec [of _ "Suc j" for j])
    have "try_backups e p bs (snd (try_restore e p b w)) =
            (True, snd (try_restore e p (bs ! k)
                     (tried_before e p bs (snd (try_restore e p b w)) k)))"
      using Cons.IH [of k "snd (try_restore e p b w)"] Cons.prems Suc rest by simp
    with rej Suc show ?thesis
      by (cases "try_restore e p b w") auto
  qed
qed

lemma try_backups_none:
  "\<forall>j<length bs. \<not> fst (try_restore e p (bs ! j) (tried_before e p bs w j)) \<Longrightarrow>
   try_backups e p bs w = (False, tried_before e p bs w (length bs))"
proof (induction bs arbitrary: w)
  case Nil
  then show ?case by simp
next
  case (Cons b bs)
  have rej: "\<not> fst (try_restore e p b w)"
    using Cons.prems by (auto dest: spec [of _ 0])
  have rest: "\<forall>j<length bs. \<not> fst (try_restore e p (bs ! j)
                      (tried_before e p bs (snd (try_restore e p b w)) j))"
    using Cons.prems by (auto dest: spec [of _ "Suc j" for j])
  from Cons.IH [OF rest] rej show ?case
    by (cases "try_restore e p b w") auto
qed

lemma tried_before_files:
  "i \<le> length bs \<Longrightarrow>
   \<forall>j<i. \<not> fst (try_restore e p (bs ! j) (tried_before e p bs w j)) \<Longrightarrow>
   files (tried_before e p bs w i) = files w"
proof (induction bs arbitrary: w i)
  case Nil
  then show ?case by simp
next
  case (Cons b bs)
  show ?case
  proof (cases i)
    case 0
    then show ?thesis by simp
  next
    case (Suc k)
    have rej: "\<not> fst (try_restore e p b w)"
      using Cons.prems(2) Suc by (auto dest: spec [of _ 0])
    have rest: "\<forall>j<k. \<not> fst (try_restore e p (bs ! j)
                      (tried_before e p bs (snd (try_restore e p b w)) j))"
      using Cons.prems(2) Suc by (auto dest: spec [of _ "Suc j" for j])
    have "files (tried_before e p bs (snd (try_restore e p b w)) k)
            = files (snd (try_restore e p b w))"
      using Cons.IH [of k "snd (try_restore e p b w)"] Cons.prems(1) Suc rest by simp
    with rej Suc show ?thesis
      by (simp add: try_restore_rejected)
  qed
qed

lemma log_lookup [simp]: "lookup (log ev w) q = lookup w q"
  by (simp add: log_def lookup_def)

lemma st_mtime_log [simp]: "st_mtime (log ev w) q = st_mtime w q"
  by (simp add: st_mtime_def)

text \<open>
  The world in which the candidates are tried when neither the listing nor a stat raised:
  the listing and each stat have consumed one operation, nothing else has changed.
\<close>

lemma stat_keys_world:
  assumes "fst (stat_keys e xs w) = Inr keys"
  shows "snd (stat_keys e xs w) = w\<lparr>ticks := ticks w + length xs\<rparr>"
proof -
  have "same_but_ticks w (snd (stat_keys e xs w))" by (rule stat_keys_frame)
  then have "snd (stat_keys e xs w) = w\<lparr>ticks := ticks (snd (stat_keys e xs w))\<rparr>"
    by (simp add: same_but_ticks_def)
  with stat_keys_ticks [OF assms] show ?thesis by simp
qed

lemma attempt_recovery_listed:
  assumes "\<not> faults e (ticks w)"
      and "\<not> (\<exists>i<length (glob_backups w p). faults e (Suc (ticks w) + i))"
  shows "attempt_recovery e p w =
           returned (try_backups e p
             (sort_newest_first (glob_backups w p) (map (st_mtime w) (glob_backups w p)))
             ((log (Recovery_started p) w)
                \<lparr>ticks := Suc (ticks w) + length (glob_backups w p)\<rparr>))"
proof -
  let ?w1 = "tick (log (Recovery_started p) w)"
  let ?xs = "glob_backups w p"
  have ex: "\<forall>x \<in> set ?xs. lookup ?w1 x \<noteq> None"
    using glob_backups_exist [of w p] by (simp add: lookup_def tick_def log_def)
  have t: "ticks ?w1 = Suc (ticks w)"
    by (simp add: tick_def log_def)
  have m: "map (st_mtime ?w1) ?xs = map (st_mtime w) ?xs"
    by (simp add: st_mtime_def lookup_def tick_def log_def)
  have keys: "fst (stat_keys e ?xs ?w1) = Inr (map (st_mtime w) ?xs)"
    using stat_keys_result [OF ex, of e] assms(2) by (simp add: t m)
  have world: "snd (stat_keys e ?xs ?w1)
                 = (log (Recovery_started p) w)\<lparr>ticks := Suc (ticks w) + length ?xs\<rparr>"
    using stat_keys_world [OF keys] by (simp add: tick_def log_def)
  show ?thesis
    unfolding attempt_recovery_unfold Let_def using assms(1) keys world by simp
qed

text \<open>When the listing or one of the stats raises, no file has been touched.\<close>

lemma attempt_recovery_raised:
  assumes "isl (fst (attempt_recovery e p w))"
  shows "files (snd (attempt_recovery e p w)) = files w"
  using assms unfolding attempt_recovery_unfold Let_def
  by (auto simp: returned_def tick_def log_def split: sum.splits if_splits)

text \<open>
  What \<open>_attempt_recovery\<close> on a target \<open>p\<close> does. It raises exactly when the listing or
  the stat of a listed entry raises, and then no file has changed. Otherwise the
  candidates are exactly the existing files named \<open>p.backup.\<close> followed by anything
  without a separator, in decreasing order of modification time. A candidate is restored
  exactly when it is valid (structure and probe) and the rename onto the target does not
  raise. When candidate \<open>i\<close> is the first one restored, the files are untouched until it is
  tried, the result is \<open>True\<close>, the target then holds that file, the backup path holds
  nothing, and every other path is as before: a rename that raises leaves the candidate
  behind and the next one is tried. When no candidate is restored the result is \<open>False\<close>
  and the files are unchanged; the result is \<open>True\<close> if and only if some candidate is
  restored.
\<close>

lemma attempt_recovery_without_raise:
  fixes e :: env and p :: path and w :: world
  defines "listed \<equiv> glob_backups w p"
  defines "raises \<equiv> faults e (ticks w) \<or> (\<exists>i<length listed. faults e (Suc (ticks w) + i))"
  defines "cands \<equiv> sort_newest_first listed (map (st_mtime w) listed)"
  defines "w0 \<equiv> (log (Recovery_started p) w)\<lparr>ticks := Suc (ticks w) + length listed\<rparr>"
  defines "before \<equiv> tried_before e p cands w0"
  defines "restored \<equiv> \<lambda>i. fst (try_restore e p (cands ! i) (before i))"
  defines "res \<equiv> attempt_recovery e p w"
  shows
    "(isl (fst res) \<longleftrightarrow> raises)
     \<and> (raises \<longrightarrow> files (snd res) = files w)
     \<and> set cands = {q. lookup w q \<noteq> None \<and> (\<exists>r. q = p @ ''.backup.'' @ r \<and> CHR ''/'' \<notin> set r)}
     \<and> sorted_wrt (\<lambda>a b. st_mtime w b \<le> st_mtime w a) cands
     \<and> (\<forall>i<length cands.
           restored i \<longleftrightarrow>
             fst (is_kubeconfig_valid e (cands ! i) (before i)) \<and>
             \<not> faults e (ticks (snd (is_kubeconfig_valid e (cands ! i) (before i)))))
     \<and> (\<not> raises \<longrightarrow>
          (\<forall>i<length cands. (\<forall>j<i. \<not> restored j) \<and> restored i \<longrightarrow>
             fst res = Inr True \<and> files (before i) = files w
             \<and> lookup (snd res) p = lookup w (cands ! i)
             \<and> lookup (snd res) (cands ! i) = None
             \<and> (\<forall>q. q \<noteq> p \<and> q \<noteq> cands ! i \<longrightarrow> lookup (snd res) q = lookup w q))
          \<and> ((\<forall>j<length cands. \<not> restored j) \<longrightarrow>
                fst res = Inr False \<and> files (snd res) = files w)
          \<and> (fst res = Inr True \<longleftrightarrow> (\<exists>i<length cands. restored i)))"
proof -
  have raise_iff: "isl (fst res) \<longleftrightarrow> raises"
    unfolding res_def raises_def listed_def by (rule recovery_raises_iff)
  have raised: "files (snd res) = files w" if raises
    using that raise_iff attempt_recovery_raised [of e p w] by (simp add: res_def)
  have f0: "files w0 = files w"
    by (simp add: w0_def log_def)
  have cset: "set cands = {q. lookup w q \<noteq> None \<and> (\<exists>r. q = p @ ''.backup.'' @ r \<and> CHR ''/'' \<notin> set r)}"
    unfolding cands_def listed_def set_candidates by (simp add: is_backup_name_iff)
  have csorted: "sorted_wrt (\<lambda>a b. st_mtime w b \<le> st_mtime w a) cands"
    unfolding cands_def by (rule sorted_candidates)
  have riff: "restored i \<longleftrightarrow>
             fst (is_kubeconfig_valid e (cands ! i) (before i)) \<and>
             \<not> faults e (ticks (snd (is_kubeconfig_valid e (cands ! i) (before i))))" for i
    unfolding restored_def by (rule try_restore_iff)
  have calm: "(\<forall>i<length cands. (\<forall>j<i. \<not> restored j) \<and> restored i \<longrightarrow>
             fst res = Inr True \<and> files (before i) = files w
             \<and> lookup (snd res) p = lookup w (cands ! i)
             \<and> lookup (snd res) (cands ! i) = None
             \<and> (\<forall>q. q \<noteq> p \<and> q \<noteq> cands ! i \<longrightarrow> lookup (snd res) q = lookup w q))
          \<and> ((\<forall>j<length cands. \<not> restored j) \<longrightarrow>
                fst res = Inr False \<and> files (snd res) = files w)
          \<and> (fst res = Inr True \<longleftrightarrow> (\<exists>i<length cands. restored i))"
    if quiet_listing: "\<not> raises"
  proof -
    have res: "res = returned (try_backups e p cands w0)"
      unfolding res_def cands_def w0_def listed_def
      using quiet_listing unfolding raises_def listed_def
      by (intro attempt_recovery_listed) simp_all
    have first: "fst res = Inr True \<and> files (before i) = files w
             \<and> lookup (snd res) p = lookup w (cands ! i)
             \<and> lookup (snd res) (cands ! i) = None
             \<and> (\<forall>q. q \<noteq> p \<and> q \<noteq> cands ! i \<longrightarrow> lookup (snd res) q = lookup w q)"
      if i: "i < length cands" and rej: "\<forall>j<i. \<not> restored j" and acc: "restored i" for i
    proof -
      have "try_backups e p cands w0 = (True, snd (try_restore e p (cands ! i) (before i)))"
        unfolding before_def
        using i rej acc unfolding restored_def before_def by (rule try_backups_first)
      then have eq: "res = (Inr True, snd (try_restore e p (cands ! i) (before i)))"
        by (simp add: res returned_def)
      have fb: "files (before i) = files w"
        unfolding before_def
        using tried_before_files [of i cands e p w0] i rej f0
        by (simp add: restored_def before_def)
      then have lb: "lookup (before i) q = lookup w q" for q
        by (simp add: lookup_def)
      have "cands ! i \<in> set cands" using i by simp
      then have "is_backup_name p (cands ! i)"
        unfolding cands_def listed_def set_candidates by simp
      then have ne: "cands ! i \<noteq> p" by (rule backup_name_neq)
      have lr: "lookup (snd res) q =
                  (if q = p then lookup w (cands ! i) else if q = cands ! i then None
                   else lookup w q)" for q
        using try_restore_restored [of e p "cands ! i" "before i" q] acc
        by (simp add: eq restored_def lb)
      show ?thesis
        using eq fb ne lr by simp
    qed
    have none: "fst res = Inr False \<and> files (snd res) = files w"
      if rej: "\<forall>j<length cands. \<not> restored j"
    proof -
      have "try_backups e p cands w0 = (False, before (length cands))"
        unfolding before_def
        using rej unfolding restored_def before_def by (rule try_backups_none)
      then have eq: "res = (Inr False, before (length cands))"
        by (simp add: res returned_def)
      have "files (before (length cands)) = files w"
        unfolding before_def
        using tried_before_files [of "length cands" cands e p w0] rej f0
        by (simp add: restored_def before_def)
      with eq show ?thesis by simp
    qed
    have iff: "fst res = Inr True \<longleftrightarrow> (\<exists>i<length cands. restored i)"
    proof
      assume "fst res = Inr True"
      with none show "\<exists>i<length cands. restored i" by auto
    next
      assume "\<exists>i<length cands. restored i"
      then have "\<exists>i. i < length cands \<and> restored i" by blast
      then obtain k where k: "k < length cands \<and> restored k"
        and least: "\<forall>m<k. \<not> (m < length cands \<and> restored m)"
        unfolding exists_least_iff [of "\<lambda>i. i < length cands \<and> restored i"] by blast
      have "\<forall>j<k. \<not> restored j"
        using least k by (metis less_trans)
      with first [of k] k show "fst res = Inr True" by blast
    qed
    from first none iff show ?thesis by blast
  qed
  from raise_iff raised cset csorted riff calm show ?thesis by blast
qed

lemmas eval_defs =
  try_restore_def is_kubeconfig_valid_def check_permissions_def validate_kubeconfig_file_def
  validate_body_def load_document_def test_kubeconfig_connectivity_def run_def
  subprocess_effect_def prim_defs fault_def tick_def log_def lookup_def path_exists_def
  required_keys_def nonempty_section_def Let_def

lemmas recovery_defs =
  attempt_recovery_def list_backups_def glob_backups_def is_backup_name_def
  sort_newest_first_def returned_def

text \<open>
  Three backups with distinct modification times, only the oldest valid: the two newer
  ones are tried first and left where they are, the oldest is moved onto the target.
\<close>

lemma attempt_recovery_three_backups:
  "fst (attempt_recovery env0 ''/k'' three_backups) = Inr True
   \<and> lookup (snd (attempt_recovery env0 ''/k'' three_backups)) ''/k''
       = Some \<lparr>content = ''good'', mode = 384, mtime = 10\<rparr>
   \<and> lookup (snd (attempt_recovery env0 ''/k'' three_backups)) ''/k.backup.1'' = None
   \<and> lookup (snd (attempt_recovery env0 ''/k'' three_backups)) ''/k.backup.3''
       = Some \<lparr>content = ''junk'', mode = 384, mtime = 30\<rparr>"
  by (simp add: recovery_defs eval_defs three_backups_def fixture_defs)


text \<open>
  C2. \<open>_attempt_recovery\<close> does not return in every case. The listing and the stats of the
  sort stand outside any \<open>try\<close>, so an entry named like a backup on which \<open>os.stat\<close> raises (a
  symbolic link to nothing) makes the method raise before any candidate is tried. With
  \<open>gcloud\<close> down, a valid backup \<open>/tmp/kubeconfig-gke.backup.1\<close> and such an entry
  \<open>/tmp/kubeconfig-gke.backup.2\<close> beside it: the forced GKE request makes its three
  attempts, enters recovery, which raises, enters recovery a second time from the last
  line of the method, which raises again, and the request ends with that exception; the
  valid backup is still at its backup path and the target is not there. When the stat of
  that entry does not raise, the same request returns \<open>True\<close> with the valid backup moved
  onto the target.
\<close>

theorem recovery_raises_on_dangling_backup:
  "fst (attempt_recovery (env_gcloud_down\<lparr>faults := (\<lambda>n. n = 2)\<rparr>)
          ''/tmp/kubeconfig-gke'' backup_and_link) = Inl OSError
   \<and> files (snd (attempt_recovery (env_gcloud_down\<lparr>faults := (\<lambda>n. n = 2)\<rparr>)
                 ''/tmp/kubeconfig-gke'' backup_and_link)) = files backup_and_link
   \<and> fst (create_gke_kubeconfig env_stat_raises True backup_and_link) = Inl OSError
   \<and> files (snd (create_gke_kubeconfig env_stat_raises True backup_and_link))
       = [(''/tmp/kubeconfig-gke.backup.1'', good_file),
          (''/tmp/kubeconfig-gke.backup.2'', \<lparr>content = [], mode = 511, mtime = 9\<rparr>)]
   \<and> filter retry_event (trace (snd (create_gke_kubeconfig env_stat_raises True backup_and_link)))
       = [Attempt 1, Ran Get_credentials ''/tmp/kubeconfig-gke'', Slept 5,
          Attempt 2, Ran Get_credentials ''/tmp/kubeconfig-gke'', Slept 5,
          Attempt 3, Ran Get_credentials ''/tmp/kubeconfig-gke'',
          Recovery_started ''/tmp/kubeconfig-gke'', Recovery_started ''/tmp/kubeconfig-gke'']
   \<and> fst (create_gke_kubeconfig env_gcloud_down True backup_and_link) = Inr True
   \<and> lookup (snd (create_gke_kubeconfig env_gcloud_down True backup_and_link))
        ''/tmp/kubeconfig-gke'' = Some good_file
   \<and> lookup (snd (create_gke_kubeconfig env_gcloud_down True backup_and_link))
        ''/tmp/kubeconfig-gke.backup.1'' = None"
proof -
  note defs = create_gke_kubeconfig_def ensure_directory_exists_def mkdir_def parent_def
    gke_attempts.simps max_retries_def retry_delay_def time_sleep_def recovery_defs eval_defs
    env_stat_raises_def env_gcloud_down_def backup_and_link_def fixture_defs
  have direct: "attempt_recovery (env_gcloud_down\<lparr>faults := (\<lambda>n. n = 2)\<rparr>)
          ''/tmp/kubeconfig-gke'' backup_and_link
        = (Inl OSError, (log (Recovery_started ''/tmp/kubeconfig-gke'') backup_and_link)
                          \<lparr>ticks := 3\<rparr>)"
    by (simp add: defs)
  have raising: "create_gke_kubeconfig env_stat_raises True backup_and_link
        = (Inl OSError,
           \<lparr>files = [(''/tmp/kubeconfig-gke.backup.1'', good_file),
                     (''/tmp/kubeconfig-gke.backup.2'', \<lparr>content = [], mode = 511, mtime = 9\<rparr>)],
            dirs = [(''/tmp'', 1023)], clock = 1013, ticks = 7, calls = 3,
            trace = [Attempt 1, Ran Get_credentials ''/tmp/kubeconfig-gke'', Slept 5,
                     Attempt 2, Ran Get_credentials ''/tmp/kubeconfig-gke'', Slept 5,
                     Attempt 3, Ran Get_credentials ''/tmp/kubeconfig-gke'',
                     Recovery_started ''/tmp/kubeconfig-gke'',
                     Recovery_started ''/tmp/kubeconfig-gke''],
            info = []\<rparr>)"
    by (simp add: defs)
  have fine: "fst (create_gke_kubeconfig env_gcloud_down True backup_and_link) = Inr True"
    "lookup (snd (create_gke_kubeconfig env_gcloud_down True backup_and_link))
        ''/tmp/kubeconfig-gke'' = Some good_file"
    "lookup (snd (create_gke_kubeconfig env_gcloud_down True backup_and_link))
        ''/tmp/kubeconfig-gke.backup.1'' = None"
    by (simp_all add: defs)
  show ?thesis
    unfolding direct raising using fine by (simp add: log_def)
qed
subsection \<open>Refreshing both kubeconfigs\<close>

lemma gke_attempts_invariant:
  assumes refl: "\<And>w. R w w"
      and trans: "\<And>a b c. R a b \<Longrightarrow> R b c \<Longrightarrow> R a c"
      and lg: "\<And>n w. R w (log (Attempt n) w)"
      and sl: "\<And>w. R w (time_sleep retry_delay w)"
      and rn: "\<And>w. R w (snd (run e Get_credentials (kubeconfig_gke_path e) False w))"
      and vl: "\<And>w. R w (snd (validate_kubeconfig_file e (kubeconfig_gke_path e) w))"
      and cr: "\<And>w. R w (snd (gke_created e w))"
      and rc: "\<And>w. R w (snd (attempt_recovery e (kubeconfig_gke_path e) w))"
  shows "R w (snd (gke_attempts e n w))"
proof (induction "Suc max_retries - n" arbitrary: n w)
  case 0
  then have "max_retries < n" by simp
  then show ?case
    by (subst gke_attempts.simps) (simp add: rc)
next
  case (Suc k)
  let ?p = "kubeconfig_gke_path e"
  from Suc.hyps(2) have le: "\<not> max_retries < n" and k: "k = Suc max_retries - Suc n"
    by simp_all
  obtain success out w1
    where r: "run e Get_credentials ?p False (log (Attempt n) w) = ((success, out), w1)"
    by (metis prod.exhaust)
  obtain valid w2 where v: "validate_kubeconfig_file e ?p w1 = (valid, w2)"
    by (metis prod.exhaust)
  have R1: "R w w1"
    using trans [OF lg [of w n] rn [of "log (Attempt n) w"]] r by simp
  have R2: "R w w2"
    using trans [OF R1 vl [of w1]] v by simp
  have next_attempt: "R w (snd (gke_attempts e (Suc n) v))" if "R w v" for v
    using trans [OF that Suc.hyps(1) [OF k]] .
  obtain rec w3 where a: "attempt_recovery e ?p w1 = (rec, w3)"
    by (metis prod.exhaust)
  have R3: "R w w3"
    using trans [OF R1 rc [of w1]] a by simp
  show ?case
  proof (cases success)
    case False
    then show ?thesis
      using le r a R1 R3 next_attempt [OF trans [OF R1 sl]] next_attempt [OF R3]
      by (subst gke_attempts.simps) (cases rec; auto)
  next
    case True
    then show ?thesis
      using le r v R2 next_attempt [OF trans [OF R2 sl]] next_attempt [OF R2] trans [OF R2 cr]
      by (subst gke_attempts.simps) (cases valid; auto simp: returned_def)
  qed
qed

lemma hosted_attempts_invariant:
  assumes refl: "\<And>w. R w w"
      and trans: "\<And>a b c. R a b \<Longrightarrow> R b c \<Longrightarrow> R a c"
      and lg: "\<And>n w. R w (log (Attempt n) w)"
      and sl: "\<And>w. R w (time_sleep retry_delay w)"
      and rn: "\<And>w. R w (snd (run e Get_secret (kubeconfig_gke_path e) True w))"
      and sv: "\<And>d w. R w (snd (save_kubeconfig e (kubeconfig_hosted_path e) d w))"
      and vl: "\<And>w. R w (snd (validate_kubeconfig_file e (kubeconfig_hosted_path e) w))"
      and cr: "\<And>w. R w (snd (hosted_created e w))"
      and rc: "\<And>w. R w (snd (attempt_recovery e (kubeconfig_hosted_path e) w))"
  shows "R w (snd (hosted_attempts e n w))"
proof (induction "Suc max_retries - n" arbitrary: n w)
  case 0
  then have "max_retries < n" by simp
  then show ?case
    by (subst hosted_attempts.simps) (simp add: rc)
next
  case (Suc k)
  let ?p = "kubeconfig_hosted_path e"
  from Suc.hyps(2) have le: "\<not> max_retries < n" and k: "k = Suc max_retries - Suc n"
    by simp_all
  obtain success b64 w1
    where r: "run e Get_secret (kubeconfig_gke_path e) True (log (Attempt n) w) = ((success, b64), w1)"
    by (metis prod.exhaust)
  have R1: "R w w1"
    using trans [OF lg [of w n] rn [of "log (Attempt n) w"]] r by simp
  have next_attempt: "R w (snd (hosted_attempts e (Suc n) v))" if "R w v" for v
    using trans [OF that Suc.hyps(1) [OF k]] .
  obtain rec w4 where a: "attempt_recovery e ?p w1 = (rec, w4)"
    by (metis prod.exhaust)
  have R4: "R w w4"
    using trans [OF R1 rc [of w1]] a by simp
  note fail1 = next_attempt [OF trans [OF R1 sl]] R4 next_attempt [OF R4]
  show ?case
  proof (cases "\<not> success \<or> strip b64 = []")
    case True
    then show ?thesis
      using le r a fail1 by (subst hosted_attempts.simps) (cases rec; auto)
  next
    case ok: False
    show ?thesis
    proof (cases "decode_kubeconfig e b64")
      case (Inl x)
      then show ?thesis
        using le r a ok fail1 by (subst hosted_attempts.simps) (cases rec; auto)
    next
      case (Inr d)
      obtain sres w2
        where s: "(if \<not> config_dry_run e then save_kubeconfig e ?p d w1 else (Saved, w1)) = (sres, w2)"
        by (metis prod.exhaust)
      obtain valid w3 where v: "validate_kubeconfig_file e ?p w2 = (valid, w3)"
        by (metis prod.exhaust)
      have R2: "R w w2"
        using trans [OF R1 sv [of w1 d]] R1 s by (auto split: if_splits)
      have R3: "R w w3"
        using trans [OF R2 vl [of w2]] v by simp
      show ?thesis
        using le r ok Inr s v next_attempt [OF R2] next_attempt [OF trans [OF R2 sl]]
              next_attempt [OF R3] next_attempt [OF trans [OF R3 sl]] trans [OF R3 cr]
        by (subst hosted_attempts.simps) (cases sres; cases valid; auto simp: returned_def)
    qed
  qed
qed

lemma footprint_refl: "footprint p w w"
  by (simp add: footprint_def)

lemma footprint_trans: "footprint p a b \<Longrightarrow> footprint p b c \<Longrightarrow> footprint p a c"
  by (simp add: footprint_def)

lemma footprint_same_files:
  "files w' = files w \<Longrightarrow> filter ran_secret (trace w') = filter ran_secret (trace w) \<Longrightarrow>
   footprint p w w'"
  by (simp add: footprint_def lookup_def)

lemma footprint_log: "\<not> ran_secret ev \<Longrightarrow> footprint p w (log ev w)"
  by (simp add: footprint_def log_def lookup_def)

lemma footprint_sleep: "footprint p w (time_sleep d w)"
  by (simp add: footprint_def time_sleep_def lookup_def)

lemma footprint_run_credentials: "footprint p w (snd (run e Get_credentials p co w))"
  by (simp add: footprint_def run_def subprocess_effect_def Let_def lookup_def update_conv'
           split: proc.splits option.splits)

lemma footprint_validate: "footprint p w (snd (validate_kubeconfig_file e q w))"
  by (rule footprint_same_files) simp_all

lemma connectivity_secret [simp]:
  "filter ran_secret (trace (snd (test_kubeconfig_connectivity e p w))) = filter ran_secret (trace w)"
  by (simp add: test_kubeconfig_connectivity_def run_def subprocess_effect_def Let_def
        split: prod.splits proc.splits)

lemma check_permissions_secret [simp]:
  "filter ran_secret (trace (check_permissions e p w)) = filter ran_secret (trace w)"
  by (simp add: check_permissions_eq tick_def log_def split: option.splits)

lemma footprint_is_valid: "footprint p w (snd (is_kubeconfig_valid e q w))"
  by (rule footprint_same_files) (simp_all add: is_valid_snd)

lemma footprint_ensure_directory: "footprint p w (snd (ensure_directory_exists e q w))"
  by (rule footprint_same_files) simp_all

lemma create_backup_lookup:
  "q \<noteq> backup_path_of p (clock w) \<Longrightarrow> lookup (snd (create_backup e p w)) q = lookup w q"
  unfolding create_backup_snd create_backup_body_def Let_def
  by (auto simp: prim_defs tick_def lookup_def fault_def update_conv' Let_def split: option.splits)

lemma footprint_create_backup: "footprint p w (snd (create_backup e p w))"
  unfolding footprint_def
proof (intro conjI allI impI)
  fix q assume "q \<noteq> p \<and> \<not> prefix (p @ ''.backup.'') q"
  then have "q \<noteq> backup_path_of p (clock w)"
    by (auto simp: backup_path_of_def)
  then show "lookup (snd (create_backup e p w)) q = lookup w q"
    by (rule create_backup_lookup)
next
  show "filter ran_secret (trace (snd (create_backup e p w))) = filter ran_secret (trace w)"
    by simp
qed

lemma checksum_quiet: "quiet w (snd (calculate_file_checksum e p w))"
  by (simp add: calculate_file_checksum_def quiet_def prim_defs tick_def split: option.splits)

lemma checksum_files [simp]: "files (snd (calculate_file_checksum e p w)) = files w"
  by (simp add: calculate_file_checksum_def prim_defs tick_def split: option.splits)

lemma footprint_gke_created: "footprint (kubeconfig_gke_path e) w (snd (gke_created e w))"
  by (auto simp: footprint_def gke_created_def set_secure_permissions_def store_info_def Let_def
        calculate_file_checksum_def prim_defs tick_def lookup_def update_conv'
        split: prod.splits option.splits)

lemma footprint_try_restore:
  assumes "is_backup_name p b"
  shows "footprint p w (snd (try_restore e p b w))"
proof (cases "fst (try_restore e p b w)")
  case False
  have "filter ran_secret (trace (snd (try_restore e p b w))) = filter ran_secret (trace w)"
    by (simp add: try_restore_snd is_valid_snd)
  with try_restore_rejected [OF False] show ?thesis
    by (rule footprint_same_files)
next
  case True
  have pre: "prefix (p @ ''.backup.'') b"
    using assms by (simp add: is_backup_name_def)
  have "filter ran_secret (trace (snd (try_restore e p b w))) = filter ran_secret (trace w)"
    by (simp add: try_restore_snd is_valid_snd)
  with pre show ?thesis
    by (auto simp: footprint_def try_restore_restored [OF True])
qed

lemma footprint_try_backups:
  "\<forall>b \<in> set bs. is_backup_name p b \<Longrightarrow> footprint p w (snd (try_backups e p bs w))"
proof (induction bs arbitrary: w)
  case Nil
  show ?case by (simp add: footprint_refl)
next
  case (Cons b bs)
  obtain ok w1 where t: "try_restore e p b w = (ok, w1)"
    by (metis prod.exhaust)
  have f1: "footprint p w w1"
    using footprint_try_restore [of p b w e] Cons.prems t by simp
  have "footprint p w1 (snd (try_backups e p bs w1))"
    using Cons.IH [of w1] Cons.prems by simp
  with f1 have "footprint p w (snd (try_backups e p bs w1))"
    by (rule footprint_trans)
  with f1 t show ?case by (cases ok) simp_all
qed

lemma footprint_attempt_recovery: "footprint p w (snd (attempt_recovery e p w))"
proof (cases "isl (fst (attempt_recovery e p w))")
  case True
  have "filter ran_secret (trace (snd (attempt_recovery e p w))) = filter ran_secret (trace w)"
    using True unfolding attempt_recovery_unfold Let_def
    by (auto simp: returned_def tick_def log_def split: sum.splits if_splits)
  with attempt_recovery_raised [OF True] show ?thesis
    by (rule footprint_same_files)
next
  case False
  let ?w0 = "(log (Recovery_started p) w)\<lparr>ticks := Suc (ticks w) + length (glob_backups w p)\<rparr>"
  let ?cands = "sort_newest_first (glob_backups w p) (map (st_mtime w) (glob_backups w p))"
  have eq: "attempt_recovery e p w = returned (try_backups e p ?cands ?w0)"
    using False unfolding recovery_raises_iff by (intro attempt_recovery_listed) simp_all
  have a: "footprint p w ?w0"
    by (rule footprint_same_files) (simp_all add: log_def)
  have b: "footprint p ?w0 (snd (try_backups e p ?cands ?w0))"
    by (rule footprint_try_backups) (simp add: set_candidates)
  from a b show ?thesis
    unfolding eq by (simp add: returned_def footprint_trans)
qed

lemma footprint_gke_attempts:
  "footprint (kubeconfig_gke_path e) w (snd (gke_attempts e n w))"
  by (rule gke_attempts_invariant)
     (auto intro: footprint_refl footprint_trans footprint_log footprint_sleep
        footprint_run_credentials footprint_validate footprint_gke_created
        footprint_attempt_recovery)

lemma footprint_loop_entry: "footprint p w (loop_entry e p force w)"
proof -
  let ?w1 = "after_fast_path e p force w"
  let ?w2 = "snd (ensure_directory_exists e p ?w1)"
  have a: "footprint p w ?w1"
    by (simp add: after_fast_path_def footprint_refl footprint_is_valid)
  have b: "footprint p ?w1 ?w2"
    by (rule footprint_ensure_directory)
  have c: "footprint p ?w2 (loop_entry e p force w)"
    by (simp add: loop_entry_def Let_def footprint_refl footprint_create_backup)
  from a b c show ?thesis by (blast intro: footprint_trans)
qed

lemma create_gke_snd_cases:
  "snd (create_gke_kubeconfig e force w) = after_fast_path e (kubeconfig_gke_path e) force w
   \<or> snd (create_gke_kubeconfig e force w)
       = snd (ensure_directory_exists e (kubeconfig_gke_path e)
                (after_fast_path e (kubeconfig_gke_path e) force w))
   \<or> snd (create_gke_kubeconfig e force w)
       = snd (gke_attempts e 1 (loop_entry e (kubeconfig_gke_path e) force w))"
  unfolding create_gke_unfold Let_def by (simp only: split: if_splits) simp

lemma footprint_create_gke:
  "footprint (kubeconfig_gke_path e) w (snd (create_gke_kubeconfig e force w))"
proof -
  let ?p = "kubeconfig_gke_path e"
  have a: "footprint ?p w (after_fast_path e ?p force w)"
    by (simp add: after_fast_path_def footprint_refl footprint_is_valid)
  have b: "footprint ?p w (snd (ensure_directory_exists e ?p (after_fast_path e ?p force w)))"
    using a footprint_ensure_directory by (rule footprint_trans)
  have c: "footprint ?p w (snd (gke_attempts e 1 (loop_entry e ?p force w)))"
    using footprint_loop_entry footprint_gke_attempts by (rule footprint_trans)
  from a b c create_gke_snd_cases [of e force w] show ?thesis
    by metis
qed

text \<open>
  C9. \<open>refresh_kubeconfigs\<close> first calls \<open>create_gke_kubeconfig\<close> with
  \<open>force_recreate = True\<close>. When that does not return \<open>True\<close>, the call ends as the GKE call
  did and in the very world it left, with \<open>False\<close> when the GKE call returned \<open>False\<close>:
  nothing of the hosted acquisition has run (no \<open>kubectl get secret\<close> in the log), and the
  file at the hosted path is what it was, given that the hosted path is neither the GKE
  path nor named like one of its backups. When the GKE call succeeds, the result is that
  of \<open>create_hosted_kubeconfig\<close> with \<open>force_recreate = True\<close> in the world the GKE call left;
  so the result is \<open>True\<close> exactly when both succeed, GKE first.
\<close>

theorem refresh_kubeconfigs_order:
  fixes e :: env and w :: world
  defines "pg \<equiv> kubeconfig_gke_path e"
  defines "ph \<equiv> kubeconfig_hosted_path e"
  defines "g \<equiv> create_gke_kubeconfig e True w"
  defines "h \<equiv> create_hosted_kubeconfig e True (snd g)"
  defines "r \<equiv> refresh_kubeconfigs e w"
  shows "(fst g = Inr False \<longrightarrow> r = (Inr False, snd g))
       \<and> (fst g \<noteq> Inr True \<longrightarrow>
            r = g \<and> filter ran_secret (trace (snd r)) = filter ran_secret (trace w))
       \<and> (fst g \<noteq> Inr True \<and> ph \<noteq> pg \<and> \<not> prefix (pg @ ''.backup.'') ph \<longrightarrow>
            lookup (snd r) ph = lookup w ph)
       \<and> (fst g = Inr True \<longrightarrow> r = h)
       \<and> (fst r = Inr True \<longleftrightarrow> fst g = Inr True \<and> fst h = Inr True)"
proof -
  have fp: "footprint pg w (snd g)"
    unfolding pg_def g_def by (rule footprint_create_gke)
  have failed: "r = g" if "fst g \<noteq> Inr True"
    using that unfolding r_def g_def refresh_kubeconfigs_def
    by (cases "create_gke_kubeconfig e True w") (auto split: sum.splits)
  have false: "r = (Inr False, snd g)" if "fst g = Inr False"
    using that failed [of] by (cases g) simp
  have passed: "r = h" if "fst g = Inr True"
    using that unfolding r_def g_def h_def refresh_kubeconfigs_def
    by (cases "create_gke_kubeconfig e True w";
        cases "create_hosted_kubeconfig e True (snd (create_gke_kubeconfig e True w))")
       (auto split: sum.splits)
  have quiet: "filter ran_secret (trace (snd r)) = filter ran_secret (trace w)"
    if "fst g \<noteq> Inr True"
    using failed [OF that] fp by (simp add: footprint_def)
  have untouched: "lookup (snd r) ph = lookup w ph"
    if "fst g \<noteq> Inr True" "ph \<noteq> pg" "\<not> prefix (pg @ ''.backup.'') ph"
    using failed [OF that(1)] fp that(2,3) by (simp add: footprint_def)
  have iff: "fst r = Inr True \<longleftrightarrow> fst g = Inr True \<and> fst h = Inr True"
    using failed passed by (cases "fst g = Inr True") auto
  from false failed passed quiet untouched iff show ?thesis by blast
qed

theorem refresh_kubeconfigs_order_witness:
  "fst (create_gke_kubeconfig env_refusing True (world_of [(''/tmp/kubeconfig-hosted'', good_file)]))
     = Inr False
   \<and> kubeconfig_hosted_path env_refusing \<noteq> kubeconfig_gke_path env_refusing
   \<and> \<not> prefix (kubeconfig_gke_path env_refusing @ ''.backup.'') (kubeconfig_hosted_path env_refusing)
   \<and> fst (refresh_kubeconfigs env_refusing (world_of [(''/tmp/kubeconfig-hosted'', good_file)]))
       = Inr False
   \<and> lookup (snd (refresh_kubeconfigs env_refusing (world_of [(''/tmp/kubeconfig-hosted'', good_file)])))
        ''/tmp/kubeconfig-hosted'' = Some good_file
   \<and> filter ran_secret
        (trace (snd (refresh_kubeconfigs env_refusing (world_of [(''/tmp/kubeconfig-hosted'', good_file)]))))
       = []"
proof -
  let ?w = "world_of [(''/tmp/kubeconfig-hosted'', good_file)]"
  have paths: "kubeconfig_gke_path env_refusing = ''/tmp/kubeconfig-gke''"
              "kubeconfig_hosted_path env_refusing = ''/tmp/kubeconfig-hosted''"
    by (simp_all add: env_refusing_def env0_def)
  have g: "fst (create_gke_kubeconfig env_refusing True ?w) = Inr False"
    by (simp add: create_gke_unfold gke_attempts.simps max_retries_def retry_delay_def
          ensure_directory_exists_def mkdir_def parent_def loop_entry_def after_fast_path_def
          recovery_defs eval_defs time_sleep_def world_of_def env_refusing_def env0_def
          refuse_def)
  then have g': "fst (create_gke_kubeconfig env_refusing True ?w) \<noteq> Inr True"
    by simp
  have lk: "lookup ?w (kubeconfig_hosted_path env_refusing) = Some good_file" "trace ?w = []"
    by (simp_all add: lookup_def world_of_def paths)
  have ne: "kubeconfig_hosted_path env_refusing \<noteq> kubeconfig_gke_path env_refusing"
           "\<not> prefix (kubeconfig_gke_path env_refusing @ ''.backup.'')
                     (kubeconfig_hosted_path env_refusing)"
    by (simp_all add: paths)
  note T = refresh_kubeconfigs_order [where e = env_refusing and w = ?w]
  from T g' have a: "filter ran_secret (trace (snd (refresh_kubeconfigs env_refusing ?w)))
                      = filter ran_secret (trace ?w)"
    by blast
  from T g' ne have b: "lookup (snd (refresh_kubeconfigs env_refusing ?w))
                         (kubeconfig_hosted_path env_refusing)
                       = lookup ?w (kubeconfig_hosted_path env_refusing)"
    by blast
  from T g have c: "refresh_kubeconfigs env_refusing ?w
                      = (Inr False, snd (create_gke_kubeconfig env_refusing True ?w))"
    by blast
  from g ne a b c lk show ?thesis
    by (simp add: paths)
qed
subsection \<open>Backups\<close>

lemma digit_not_slash: "n < 10 \<Longrightarrow> ''0123456789'' ! n \<noteq> CHR ''/''"
proof -
  assume "n < 10"
  then have "''0123456789'' ! n \<in> set ''0123456789''"
    by (intro nth_mem) simp
  then show ?thesis by auto
qed

lemma digits_no_slash: "CHR ''/'' \<notin> set (digits n)"
proof (induction n rule: digits.induct)
  case (1 n)
  show ?case
  proof (cases "n < 10")
    case True
    then show ?thesis
      using digit_not_slash [of n] by (subst digits.simps) simp
  next
    case False
    then show ?thesis
      using 1 digit_not_slash [of "n mod 10"] by (subst digits.simps) simp
  qed
qed

lemma backup_path_is_backup_name: "is_backup_name p (backup_path_of p ts)"
  by (simp add: is_backup_name_iff backup_path_of_def str_int_def digits_no_slash)

lemma backup_path_neq [simp]: "backup_path_of p ts \<noteq> p" "p \<noteq> backup_path_of p ts"
  by (simp_all add: backup_path_of_def)

lemma create_backup_result:
  "create_backup e p w = (Some b, w') \<Longrightarrow>
   b = backup_path_of p (clock w) \<and>
   (\<exists>f. lookup w p = Some f \<and>
        lookup w' b = Some \<lparr>content = content f, mode = mode f, mtime = clock w\<rparr>)"
  unfolding create_backup_def create_backup_body_def Let_def
  by (auto simp: prim_defs tick_def lookup_def fault_def update_conv' Let_def
           split: option.splits if_splits prod.splits sum.splits)

lemma all_less_6:
  "(\<forall>i<6. P (n + i)) \<longleftrightarrow>
     P n \<and> P (Suc n) \<and> P (Suc (Suc n)) \<and> P (Suc (Suc (Suc n))) \<and> P (Suc (Suc (Suc (Suc n))))
     \<and> P (Suc (Suc (Suc (Suc (Suc n)))))"
proof -
  have "(\<forall>i<6. P (n + i)) \<longleftrightarrow> (\<forall>i<Suc (Suc (Suc (Suc (Suc (Suc 0))))). P (n + i))"
    by (simp add: eval_nat_numeral)
  also have "\<dots> \<longleftrightarrow> P n \<and> P (Suc n) \<and> P (Suc (Suc n)) \<and> P (Suc (Suc (Suc n)))
     \<and> P (Suc (Suc (Suc (Suc n)))) \<and> P (Suc (Suc (Suc (Suc (Suc n)))))"
    by (auto simp: less_Suc_eq)
  finally show ?thesis .
qed

text \<open>
  \<open>_create_backup\<close> returns a path exactly when the target is there and none of its six
  operations (open the target, open the backup, read, write, stat, chmod) raises.
\<close>

lemma create_backup_made_suc:
  "fst (create_backup e p v) = Some b \<longleftrightarrow>
     b = backup_path_of p (clock v) \<and> lookup v p \<noteq> None \<and>
     \<not> faults e (ticks v) \<and> \<not> faults e (Suc (ticks v)) \<and> \<not> faults e (Suc (Suc (ticks v)))
     \<and> \<not> faults e (Suc (Suc (Suc (ticks v)))) \<and> \<not> faults e (Suc (Suc (Suc (Suc (ticks v)))))
     \<and> \<not> faults e (Suc (Suc (Suc (Suc (Suc (ticks v))))))"
  unfolding create_backup_def create_backup_body_def Let_def
  by (auto simp: prim_defs tick_def lookup_def fault_def update_conv' Let_def
           split: option.splits if_splits prod.splits sum.splits)

lemma create_backup_made_iff:
  "fst (create_backup e p v) = Some b \<longleftrightarrow>
     b = backup_path_of p (clock v) \<and> lookup v p \<noteq> None \<and>
     (\<forall>i<6. \<not> faults e (ticks v + i))"
  unfolding create_backup_made_suc all_less_6 [of "\<lambda>k. \<not> faults e k"] by (rule refl)

text \<open>
  What is at the backup path afterwards. A failure at either \<open>open\<close> leaves it as it was;
  a failure at the read or the write leaves an empty file; a failure at the stat or the
  chmod leaves the copy with the mode the file was opened with.
\<close>

lemma create_backup_leaves_suc:
  "lookup (snd (create_backup e p v)) (backup_path_of p (clock v)) =
     (case lookup v p of
        None \<Rightarrow> lookup v (backup_path_of p (clock v))
      | Some f \<Rightarrow>
          if faults e (ticks v) \<or> faults e (Suc (ticks v))
          then lookup v (backup_path_of p (clock v))
          else
            (let m = (case lookup v (backup_path_of p (clock v)) of
                        None \<Rightarrow> new_file_mode e | Some g \<Rightarrow> mode g)
             in if faults e (Suc (Suc (ticks v))) \<or> faults e (Suc (Suc (Suc (ticks v))))
                then Some \<lparr>content = [], mode = m, mtime = clock v\<rparr>
                else if faults e (Suc (Suc (Suc (Suc (ticks v)))))
                        \<or> faults e (Suc (Suc (Suc (Suc (Suc (ticks v))))))
                then Some \<lparr>content = content f, mode = m, mtime = clock v\<rparr>
                else Some \<lparr>content = content f, mode = mode f, mtime = clock v\<rparr>))"
  unfolding create_backup_snd create_backup_body_def Let_def
  by (simp add: prim_defs tick_def lookup_def fault_def update_conv' Let_def
           split: option.splits)

lemma create_backup_leaves:
  "lookup (snd (create_backup e p v)) (backup_path_of p (clock v)) =
     (case lookup v p of
        None \<Rightarrow> lookup v (backup_path_of p (clock v))
      | Some f \<Rightarrow>
          if faults e (ticks v) \<or> faults e (ticks v + 1)
          then lookup v (backup_path_of p (clock v))
          else
            (let m = (case lookup v (backup_path_of p (clock v)) of
                        None \<Rightarrow> new_file_mode e | Some g \<Rightarrow> mode g)
             in if faults e (ticks v + 2) \<or> faults e (ticks v + 3)
                then Some \<lparr>content = [], mode = m, mtime = clock v\<rparr>
                else if faults e (ticks v + 4) \<or> faults e (ticks v + 5)
                then Some \<lparr>content = content f, mode = m, mtime = clock v\<rparr>
                else Some \<lparr>content = content f, mode = mode f, mtime = clock v\<rparr>))"
proof -
  have n: "ticks v + 1 = Suc (ticks v)" "ticks v + 2 = Suc (Suc (ticks v))"
    "ticks v + 3 = Suc (Suc (Suc (ticks v)))" "ticks v + 4 = Suc (Suc (Suc (Suc (ticks v))))"
    "ticks v + 5 = Suc (Suc (Suc (Suc (Suc (ticks v)))))"
    by simp_all
  show ?thesis
    unfolding n by (rule create_backup_leaves_suc)
qed

lemma no_new_backups_refl: "no_new_backups p w w"
  by (simp add: no_new_backups_def)

lemma no_new_backups_trans:
  "no_new_backups p a b \<Longrightarrow> no_new_backups p b c \<Longrightarrow> no_new_backups p a c"
  unfolding no_new_backups_def by metis

lemma tmp_not_backup: "\<not> is_backup_name p (p @ ''.tmp'')"
  by (simp add: is_backup_name_def)

lemma no_new_backups_outside:
  "(\<And>q. q \<noteq> p \<Longrightarrow> q \<noteq> p @ ''.tmp'' \<Longrightarrow> lookup w' q = lookup w q) \<Longrightarrow>
   no_new_backups p w w'"
  unfolding no_new_backups_def using tmp_not_backup [of p] backup_name_neq [of p] by metis

lemma no_new_backups_same_files: "files w' = files w \<Longrightarrow> no_new_backups p w w'"
  by (simp add: no_new_backups_def lookup_def)

lemma no_new_backups_log: "no_new_backups p w (log ev w)"
  by (rule no_new_backups_same_files) (simp add: log_def)

lemma no_new_backups_sleep: "no_new_backups p w (time_sleep d w)"
  by (rule no_new_backups_same_files) (simp add: time_sleep_def)

lemma no_new_backups_run: "no_new_backups p w (snd (run e cmd p co w))"
  by (rule no_new_backups_outside)
     (simp add: run_def subprocess_effect_def Let_def lookup_def update_conv'
           split: proc.splits option.splits command.splits)

lemma no_new_backups_run_secret: "no_new_backups p w (snd (run e Get_secret kc co w))"
  by (rule no_new_backups_same_files)
     (simp add: run_def subprocess_effect_def Let_def split: proc.splits)

lemma no_new_backups_validate: "no_new_backups p w (snd (validate_kubeconfig_file e q w))"
  by (rule no_new_backups_same_files) simp

lemma no_new_backups_gke_created:
  "no_new_backups (kubeconfig_gke_path e) w (snd (gke_created e w))"
  by (rule no_new_backups_outside)
     (auto simp: gke_created_def set_secure_permissions_def store_info_def Let_def
        calculate_file_checksum_def prim_defs tick_def lookup_def update_conv'
        split: prod.splits option.splits)

lemma no_new_backups_hosted_created:
  "no_new_backups p w (snd (hosted_created e w))"
  by (rule no_new_backups_same_files)
     (simp add: hosted_created_def store_info_def Let_def case_prod_beta)

lemma save_kubeconfig_lookup:
  "q \<noteq> p \<Longrightarrow> q \<noteq> p @ ''.tmp'' \<Longrightarrow> lookup (snd (save_kubeconfig e p d w)) q = lookup w q"
  by (auto simp: save_kubeconfig_def write_and_rename_def Let_def prim_defs tick_def
        lookup_def fault_def path_exists_def update_conv' delete_conv'
        split: option.splits prod.splits sum.splits if_splits)

lemma no_new_backups_save: "no_new_backups p w (snd (save_kubeconfig e p d w))"
  by (rule no_new_backups_outside) (rule save_kubeconfig_lookup)

lemma no_new_backups_try_restore:
  assumes "is_backup_name p b"
  shows "no_new_backups p w (snd (try_restore e p b w))"
proof (cases "fst (try_restore e p b w)")
  case False
  then show ?thesis
    by (intro no_new_backups_same_files try_restore_rejected)
next
  case True
  show ?thesis
    unfolding no_new_backups_def try_restore_restored [OF True]
    using backup_name_neq by auto
qed

lemma no_new_backups_try_backups:
  "\<forall>b \<in> set bs. is_backup_name p b \<Longrightarrow> no_new_backups p w (snd (try_backups e p bs w))"
proof (induction bs arbitrary: w)
  case Nil
  show ?case by (simp add: no_new_backups_refl)
next
  case (Cons b bs)
  obtain ok w1 where t: "try_restore e p b w = (ok, w1)"
    by (metis prod.exhaust)
  have f1: "no_new_backups p w w1"
    using no_new_backups_try_restore [of p b w e] Cons.prems t by simp
  have "no_new_backups p w1 (snd (try_backups e p bs w1))"
    using Cons.IH [of w1] Cons.prems by simp
  with f1 have "no_new_backups p w (snd (try_backups e p bs w1))"
    by (rule no_new_backups_trans)
  with f1 t show ?case by (cases ok) simp_all
qed

lemma no_new_backups_recovery: "no_new_backups p w (snd (attempt_recovery e p w))"
proof (cases "isl (fst (attempt_recovery e p w))")
  case True
  then show ?thesis
    by (intro no_new_backups_same_files attempt_recovery_raised)
next
  case False
  let ?w0 = "(log (Recovery_started p) w)\<lparr>ticks := Suc (ticks w) + length (glob_backups w p)\<rparr>"
  let ?cands = "sort_newest_first (glob_backups w p) (map (st_mtime w) (glob_backups w p))"
  have eq: "attempt_recovery e p w = returned (try_backups e p ?cands ?w0)"
    using False unfolding recovery_raises_iff by (intro attempt_recovery_listed) simp_all
  have a: "no_new_backups p w ?w0"
    by (rule no_new_backups_same_files) (simp add: log_def)
  have b: "no_new_backups p ?w0 (snd (try_backups e p ?cands ?w0))"
    by (rule no_new_backups_try_backups) (simp add: set_candidates)
  from a b show ?thesis
    unfolding eq by (simp add: returned_def no_new_backups_trans)
qed

lemma no_new_backups_gke_attempts:
  "no_new_backups (kubeconfig_gke_path e) w (snd (gke_attempts e n w))"
  by (rule gke_attempts_invariant)
     (auto intro: no_new_backups_refl no_new_backups_trans no_new_backups_log
        no_new_backups_sleep no_new_backups_run no_new_backups_validate
        no_new_backups_gke_created no_new_backups_recovery)

lemma no_new_backups_hosted_attempts:
  "no_new_backups (kubeconfig_hosted_path e) w (snd (hosted_attempts e n w))"
  by (rule hosted_attempts_invariant)
     (auto intro: no_new_backups_refl no_new_backups_trans no_new_backups_log
        no_new_backups_sleep no_new_backups_run_secret no_new_backups_validate
        no_new_backups_save no_new_backups_hosted_created no_new_backups_recovery)

lemmas run_defs = eval_defs gke_attempts.simps gke_created_def set_secure_permissions_def
  calculate_file_checksum_def store_info_def max_retries_def retry_delay_def time_sleep_def
  recovery_defs

text \<open>
  C4, as stated, fails. The backup is made once per call, before the loop, and not in
  the iterations: the second iteration, started on an existing target with no backup,
  overwrites the target, succeeds, and leaves no file named like a backup.
\<close>

theorem backup_per_attempt_counterexample:
  "path_exists stale_target ''/tmp/kubeconfig-gke''
   \<and> lookup stale_target ''/tmp/kubeconfig-gke''
       = Some \<lparr>content = ''junk'', mode = 384, mtime = 7\<rparr>
   \<and> glob_backups stale_target ''/tmp/kubeconfig-gke'' = []
   \<and> kubeconfig_gke_path env_writing = ''/tmp/kubeconfig-gke''
   \<and> fst (gke_attempts env_writing 2 stale_target) = Inr True
   \<and> filter retry_event (trace (snd (gke_attempts env_writing 2 stale_target)))
       = [Attempt 2, Ran Get_credentials ''/tmp/kubeconfig-gke'']
   \<and> lookup (snd (gke_attempts env_writing 2 stale_target)) ''/tmp/kubeconfig-gke''
       = Some \<lparr>content = ''good'', mode = 384, mtime = 2000\<rparr>
   \<and> glob_backups (snd (gke_attempts env_writing 2 stale_target)) ''/tmp/kubeconfig-gke'' = []"
  by (simp add: run_defs stale_target_def env_writing_def fixture_defs)

text \<open>
  C4, amended. A call that reaches the retry loop enters it with attempt 1 in the world
  left by one call of \<open>_create_backup\<close> when the target exists, and without a backup when
  it does not; what \<open>_create_backup\<close> returns does not matter to the loop.
  \<open>_create_backup\<close> returns a path exactly when the target is a file and none of its six
  file operations raises; the path is the target path followed by \<open>.backup.\<close> and the time
  in seconds, and that file then holds the target's bytes and mode. When it returns
  \<open>None\<close>, the backup path is as before (failure at an \<open>open\<close>), holds an empty file
  (failure at the read or the write) or holds the copy with the mode it was opened with
  (failure at the stat or the chmod). Whether it succeeds or not, no other path changes,
  the target included. The loop of either role, from any attempt and in any world,
  creates or rewrites no file named like a backup of its target: each is as before or
  gone (moved by recovery).
\<close>

theorem backup_once_per_request:
  fixes e :: env and force_recreate :: bool and w :: world
  defines "pg \<equiv> kubeconfig_gke_path e"
  defines "ph \<equiv> kubeconfig_hosted_path e"
  defines "wg \<equiv> snd (ensure_directory_exists e pg (after_fast_path e pg force_recreate w))"
  defines "wh \<equiv> snd (ensure_directory_exists e ph (after_fast_path e ph force_recreate w))"
  shows
    "(reaches_loop e pg force_recreate w \<longrightarrow>
        create_gke_kubeconfig e force_recreate w =
          gke_attempts e 1 (if path_exists wg pg then snd (create_backup e pg wg) else wg))
     \<and> (reaches_loop e ph force_recreate w \<longrightarrow>
        create_hosted_kubeconfig e force_recreate w =
          hosted_attempts e 1 (if path_exists wh ph then snd (create_backup e ph wh) else wh))
     \<and> (\<forall>b. fst (create_backup e p v) = Some b \<longleftrightarrow>
           b = backup_path_of p (clock v) \<and> lookup v p \<noteq> None \<and>
           (\<forall>i<6. \<not> faults e (ticks v + i)))
     \<and> (\<forall>b. fst (create_backup e p v) = Some b \<longrightarrow>
           b = backup_path_of p (clock v) \<and> is_backup_name p b \<and>
           (\<exists>f. lookup v p = Some f \<and>
                lookup (snd (create_backup e p v)) b
                  = Some \<lparr>content = content f, mode = mode f, mtime = clock v\<rparr>))
     \<and> lookup (snd (create_backup e p v)) (backup_path_of p (clock v)) =
         (case lookup v p of
            None \<Rightarrow> lookup v (backup_path_of p (clock v))
          | Some f \<Rightarrow>
              if faults e (ticks v) \<or> faults e (ticks v + 1)
              then lookup v (backup_path_of p (clock v))
              else
                (let m = (case lookup v (backup_path_of p (clock v)) of
                            None \<Rightarrow> new_file_mode e | Some g \<Rightarrow> mode g)
                 in if faults e (ticks v + 2) \<or> faults e (ticks v + 3)
                    then Some \<lparr>content = [], mode = m, mtime = clock v\<rparr>
                    else if faults e (ticks v + 4) \<or> faults e (ticks v + 5)
                    then Some \<lparr>content = content f, mode = m, mtime = clock v\<rparr>
                    else Some \<lparr>content = content f, mode = mode f, mtime = clock v\<rparr>))
     \<and> (\<forall>q. q \<noteq> backup_path_of p (clock v) \<longrightarrow>
           lookup (snd (create_backup e p v)) q = lookup v q)
     \<and> no_new_backups pg v (snd (gke_attempts e n v))
     \<and> no_new_backups ph v (snd (hosted_attempts e n v))"
proof -
  have g: "create_gke_kubeconfig e force_recreate w =
          gke_attempts e 1 (if path_exists wg pg then snd (create_backup e pg wg) else wg)"
    if "reaches_loop e pg force_recreate w"
    using that
    by (auto simp: create_gke_unfold reaches_loop_def loop_entry_def Let_def pg_def wg_def)
  have h: "create_hosted_kubeconfig e force_recreate w =
          hosted_attempts e 1 (if path_exists wh ph then snd (create_backup e ph wh) else wh)"
    if "reaches_loop e ph force_recreate w"
    using that
    by (auto simp: create_hosted_unfold reaches_loop_def loop_entry_def Let_def ph_def wh_def)
  have m: "\<forall>b. fst (create_backup e p v) = Some b \<longleftrightarrow>
           b = backup_path_of p (clock v) \<and> lookup v p \<noteq> None \<and>
           (\<forall>i<6. \<not> faults e (ticks v + i))"
    by (intro allI create_backup_made_iff)
  have b: "b = backup_path_of p (clock v) \<and> is_backup_name p b \<and>
           (\<exists>f. lookup v p = Some f \<and>
                lookup (snd (create_backup e p v)) b
                  = Some \<lparr>content = content f, mode = mode f, mtime = clock v\<rparr>)"
    if "fst (create_backup e p v) = Some b" for b
  proof -
    from that have "create_backup e p v = (Some b, snd (create_backup e p v))"
      by (metis prod.collapse)
    from create_backup_result [OF this] show ?thesis
      by (auto simp: backup_path_is_backup_name)
  qed
  note lv = create_backup_leaves [of e p v]
  have l: "\<forall>q. q \<noteq> backup_path_of p (clock v) \<longrightarrow>
           lookup (snd (create_backup e p v)) q = lookup v q"
    by (simp add: create_backup_lookup)
  have ng: "no_new_backups pg v (snd (gke_attempts e n v))"
    unfolding pg_def by (rule no_new_backups_gke_attempts)
  have nh: "no_new_backups ph v (snd (hosted_attempts e n v))"
    unfolding ph_def by (rule no_new_backups_hosted_attempts)
  show ?thesis
    apply (intro conjI)
    using g apply blast
    using h apply blast
    using m apply blast
    using b apply blast
    using lv apply assumption
    using l apply blast
    using ng apply assumption
    using nh apply assumption
    done
qed

lemma digits_1000: "digits 1000 = ''1000''"
  by (simp add: digits.simps)

theorem backup_once_per_request_witness:
  "reaches_loop env_writing ''/tmp/kubeconfig-gke'' True stale_target
   \<and> fst (create_gke_kubeconfig env_writing True stale_target) = Inr True
   \<and> fst (create_backup env_writing ''/tmp/kubeconfig-gke'' (tick stale_target))
       = Some ''/tmp/kubeconfig-gke.backup.1000''
   \<and> lookup (snd (create_backup env_writing ''/tmp/kubeconfig-gke'' (tick stale_target)))
        ''/tmp/kubeconfig-gke.backup.1000''
       = Some \<lparr>content = ''junk'', mode = 384, mtime = 1000\<rparr>
   \<and> glob_backups (snd (create_gke_kubeconfig env_writing True stale_target)) ''/tmp/kubeconfig-gke''
       = [''/tmp/kubeconfig-gke.backup.1000'']
   \<and> lookup (snd (create_gke_kubeconfig env_writing True stale_target)) ''/tmp/kubeconfig-gke''
       = Some \<lparr>content = ''good'', mode = 384, mtime = 2000\<rparr>
   \<and> fst (create_backup env_backup_read_fails ''/tmp/kubeconfig-gke'' (tick stale_target)) = None
   \<and> lookup (snd (create_backup env_backup_read_fails ''/tmp/kubeconfig-gke'' (tick stale_target)))
        ''/tmp/kubeconfig-gke.backup.1000''
       = Some \<lparr>content = [], mode = 420, mtime = 1000\<rparr>"
proof -
  let ?p = "''/tmp/kubeconfig-gke''"
  let ?b = "''/tmp/kubeconfig-gke.backup.1000''"
  have pg: "kubeconfig_gke_path env_writing = ?p"
    by (simp add: env_writing_def env0_def)
  have par: "parent ?p = ''/tmp''"
    by (simp add: parent_def)
  have dir: "ensure_directory_exists env_writing ?p stale_target = (True, tick stale_target)"
    by (simp add: ensure_directory_exists_def mkdir_def par fault_def lookup_def
          stale_target_def world_of_def env_writing_def env0_def)
  have r: "reaches_loop env_writing ?p True stale_target"
    by (simp add: reaches_loop_def after_fast_path_def dir)
  have ex: "path_exists (tick stale_target) ?p"
    by (simp add: path_exists_def lookup_def tick_def stale_target_def world_of_def)
  have bp: "backup_path_of ?p (clock (tick stale_target)) = ?b"
    by (simp add: backup_path_of_def str_int_def digits_1000 tick_def stale_target_def
          world_of_def)
  have tg: "lookup (tick stale_target) ?p = Some \<lparr>content = ''junk'', mode = 384, mtime = 7\<rparr>"
           "lookup (tick stale_target) ?b = None"
           "ticks (tick stale_target) = 1" "clock (tick stale_target) = 1000"
    by (simp_all add: lookup_def tick_def stale_target_def world_of_def)
  have quiet_env: "\<forall>i<6. \<not> faults env_writing (ticks (tick stale_target) + i)"
    by (simp add: env_writing_def env0_def)
  have loud_env:
    "\<not> faults env_backup_read_fails (ticks (tick stale_target))"
    "\<not> faults env_backup_read_fails (ticks (tick stale_target) + 1)"
    "faults env_backup_read_fails (ticks (tick stale_target) + 2)"
    "new_file_mode env_backup_read_fails = 420"
    by (simp_all add: env_backup_read_fails_def env_writing_def env0_def tick_def
          stale_target_def world_of_def)
  note T = backup_once_per_request [where e = env_writing and w = stale_target
             and force_recreate = True and p = ?p and v = "tick stale_target"]
  note F = backup_once_per_request [where e = env_backup_read_fails and w = stale_target
             and force_recreate = True and p = ?p and v = "tick stale_target"]
  from T r have eq: "create_gke_kubeconfig env_writing True stale_target =
      gke_attempts env_writing 1 (snd (create_backup env_writing ?p (tick stale_target)))"
    by (simp add: pg after_fast_path_def dir ex)
  from T have "fst (create_backup env_writing ?p (tick stale_target)) = Some ?b \<longleftrightarrow>
           ?b = backup_path_of ?p (clock (tick stale_target)) \<and> lookup (tick stale_target) ?p \<noteq> None \<and>
           (\<forall>i<6. \<not> faults env_writing (ticks (tick stale_target) + i))"
    by blast
  with quiet_env bp tg(1) have made: "fst (create_backup env_writing ?p (tick stale_target)) = Some ?b"
    by simp
  from T made have "\<exists>f. lookup (tick stale_target) ?p = Some f \<and>
        lookup (snd (create_backup env_writing ?p (tick stale_target))) ?b
          = Some \<lparr>content = content f, mode = mode f, mtime = clock (tick stale_target)\<rparr>"
    by blast
  with tg have cp: "lookup (snd (create_backup env_writing ?p (tick stale_target))) ?b
        = Some \<lparr>content = ''junk'', mode = 384, mtime = 1000\<rparr>"
    by auto
  have bk: "snd (create_backup env_writing ?p (tick stale_target)) =
               \<lparr>files = [(?p, \<lparr>content = ''junk'', mode = 384, mtime = 7\<rparr>),
                         (?b, \<lparr>content = ''junk'', mode = 384, mtime = 1000\<rparr>)],
                dirs = [(''/tmp'', 1023)], clock = 1000, ticks = 7, calls = 0,
                trace = [], info = []\<rparr>"
    by (simp add: create_backup_def create_backup_body_def backup_path_of_def str_int_def
          digits_1000 eval_defs stale_target_def world_of_def env_writing_def env0_def)
  have run: "fst (gke_attempts env_writing 1 (snd (create_backup env_writing ?p (tick stale_target))))
                = Inr True
     \<and> glob_backups (snd (gke_attempts env_writing 1
           (snd (create_backup env_writing ?p (tick stale_target))))) ?p = [?b]
     \<and> lookup (snd (gke_attempts env_writing 1
           (snd (create_backup env_writing ?p (tick stale_target))))) ?p
         = Some \<lparr>content = ''good'', mode = 384, mtime = 2000\<rparr>"
    unfolding bk by (simp add: run_defs env_writing_def fixture_defs)
  from F have none_iff: "fst (create_backup env_backup_read_fails ?p (tick stale_target)) = Some ?b
      \<longleftrightarrow> ?b = backup_path_of ?p (clock (tick stale_target)) \<and> lookup (tick stale_target) ?p \<noteq> None \<and>
           (\<forall>i<6. \<not> faults env_backup_read_fails (ticks (tick stale_target) + i))"
    by blast
  have "\<not> (\<forall>i<6. \<not> faults env_backup_read_fails (ticks (tick stale_target) + i))"
    using loud_env(3) by (auto intro: exI [of _ 2])
  with F have unmade: "fst (create_backup env_backup_read_fails ?p (tick stale_target)) = None"
    by (cases "fst (create_backup env_backup_read_fails ?p (tick stale_target))") blast+
  from F have "lookup (snd (create_backup env_backup_read_fails ?p (tick stale_target)))
                 (backup_path_of ?p (clock (tick stale_target))) =
         (case lookup (tick stale_target) ?p of
            None \<Rightarrow> lookup (tick stale_target) (backup_path_of ?p (clock (tick stale_target)))
          | Some f \<Rightarrow>
              if faults env_backup_read_fails (ticks (tick stale_target))
                 \<or> faults env_backup_read_fails (ticks (tick stale_target) + 1)
              then lookup (tick stale_target) (backup_path_of ?p (clock (tick stale_target)))
              else
                (let m = (case lookup (tick stale_target) (backup_path_of ?p (clock (tick stale_target))) of
                            None \<Rightarrow> new_file_mode env_backup_read_fails | Some g \<Rightarrow> mode g)
                 in if faults env_backup_read_fails (ticks (tick stale_target) + 2)
                       \<or> faults env_backup_read_fails (ticks (tick stale_target) + 3)
                    then Some \<lparr>content = [], mode = m, mtime = clock (tick stale_target)\<rparr>
                    else if faults env_backup_read_fails (ticks (tick stale_target) + 4)
                            \<or> faults env_backup_read_fails (ticks (tick stale_target) + 5)
                    then Some \<lparr>content = content f, mode = m, mtime = clock (tick stale_target)\<rparr>
                    else Some \<lparr>content = content f, mode = mode f,
                               mtime = clock (tick stale_target)\<rparr>))"
    by blast
  then have left: "lookup (snd (create_backup env_backup_read_fails ?p (tick stale_target))) ?b
                     = Some \<lparr>content = [], mode = 420, mtime = 1000\<rparr>"
    unfolding bp using loud_env by (simp add: tg(1,2,4))
  from r eq made cp run unmade left show ?thesis by simp
qed
end
